theory Spec2Isabelle
  imports Main
begin

section \<open>Data model (types.ts)\<close>

text \<open>
  The TypeScript types are erased at run time, and the reducer itself can build objects
  that lack declared properties (\<^verbatim>\<open>{ ...undefined, reportsTo: m }\<close>). Every
  property of a Person and of a Team is therefore an option: \<open>None\<close> is JavaScript's
  \<^verbatim>\<open>undefined\<close> (a property that is absent and one that holds \<^verbatim>\<open>undefined\<close>
  read the same everywhere in this code). A \<^verbatim>\<open>Record<string, T>\<close> is a map from
  strings.
\<close>

datatype RoleLevel = Executive | VP | Director | Manager | IC

datatype PersonTag = PowerUser | Champion | DecisionMaker | Influencer | Blocker

datatype AmplitudeProduct = Analytics | Experiment | SessionReplay | GuidesSurveys

record Person =
  p_id :: "string option"
  p_name :: "string option"
  role :: "string option"
  level :: "RoleLevel option"
  email :: "string option"
  avatar :: "string option"
  tags :: "PersonTag list option"
  reportsTo :: "string option"
  teamId :: "string option"

record Team =
  t_id :: "string option"
  t_name :: "string option"
  color :: "string option"
  personIds :: "string list option"
  products :: "AmplitudeProduct list option"

record OrgState =
  teams :: "string \<rightharpoonup> Team"
  people :: "string \<rightharpoonup> Person"
  orgProducts :: "AmplitudeProduct list option"

text \<open>The catalog record of a saved organisation (OrgContext.tsx, SavedOrg).\<close>

record SavedOrg =
  so_id :: string
  so_name :: string
  createdAt :: string
  updatedAt :: string

text \<open>
  \<^verbatim>\<open>Partial<Person>\<close>: each property is absent (\<open>None\<close>) or present with a value
  that may itself be \<^verbatim>\<open>undefined\<close> (\<open>Some None\<close>), as in
  \<^verbatim>\<open>updatePerson(person.id, { email: newEmail })\<close> with \<^verbatim>\<open>newEmail\<close> undefined.
\<close>

record PersonUpdates =
  u_id :: "string option option"
  u_name :: "string option option"
  u_role :: "string option option"
  u_level :: "RoleLevel option option"
  u_email :: "string option option"
  u_avatar :: "string option option"
  u_tags :: "PersonTag list option option"
  u_reportsTo :: "string option option"
  u_teamId :: "string option option"

datatype OrgAction =
    MOVE_PERSON string string string
  | ADD_PERSON Person
  | UPDATE_PERSON string PersonUpdates
  | DELETE_PERSON string
  | SET_REPORTS_TO string "string option"
  | TOGGLE_TAG string PersonTag
  | RENAME_TEAM string string
  | ADD_TEAM Team
  | DELETE_TEAM string
  | TOGGLE_TEAM_PRODUCT string AmplitudeProduct
  | TOGGLE_ORG_PRODUCT AmplitudeProduct
  | LOAD_ORG OrgState
  | CLEAR_ORG

datatype error =
    TypeError
  | SyntaxError
  | URIError
  | InvalidCharacterError
  | QuotaExceededError
  | InvalidOrgData
  | FailedToCreateShareLink

section \<open>JavaScript object idioms used by the reducer\<close>

text \<open>A property key that is \<^verbatim>\<open>undefined\<close> is converted to the string "undefined".\<close>

definition propertyKey :: "string option \<Rightarrow> string" where
  "propertyKey k = (case k of None \<Rightarrow> ''undefined'' | Some s \<Rightarrow> s)"

text \<open>\<^verbatim>\<open>{ ...x }\<close> where \<^verbatim>\<open>x\<close> may be undefined: spreading undefined gives \<^verbatim>\<open>{}\<close>.\<close>

definition emptyPerson :: Person where
  "emptyPerson = \<lparr>p_id = None, p_name = None, role = None, level = None, email = None,
     avatar = None, tags = None, reportsTo = None, teamId = None\<rparr>"

definition emptyTeam :: Team where
  "emptyTeam = \<lparr>t_id = None, t_name = None, color = None, personIds = None, products = None\<rparr>"

definition spreadPerson :: "Person option \<Rightarrow> Person" where
  "spreadPerson x = (case x of None \<Rightarrow> emptyPerson | Some p \<Rightarrow> p)"

definition spreadTeam :: "Team option \<Rightarrow> Team" where
  "spreadTeam x = (case x of None \<Rightarrow> emptyTeam | Some t \<Rightarrow> t)"

text \<open>
  \<^verbatim>\<open>state.people[id]\<close> and \<^verbatim>\<open>state.teams[id]\<close> on an object also find what the
  object inherits from \<^verbatim>\<open>Object.prototype\<close>. For these names the value read is not
  undefined: it is a function (or the prototype object, for \<^verbatim>\<open>__proto__\<close>), it is
  truthy, and it has none of the properties that the reducer reads or spreads, so it
  reads as an object without properties. An own property hides the inherited one.
\<close>

definition objectPrototypeKeys :: "string list" where
  "objectPrototypeKeys =
     [''constructor'', ''__defineGetter__'', ''__defineSetter__'', ''hasOwnProperty'',
      ''__lookupGetter__'', ''__lookupSetter__'', ''isPrototypeOf'', ''propertyIsEnumerable'',
      ''toString'', ''valueOf'', ''__proto__'', ''toLocaleString'']"

definition readPerson :: "(string \<rightharpoonup> Person) \<Rightarrow> string \<Rightarrow> Person option" where
  "readPerson ps k =
     (case ps k of
        Some p \<Rightarrow> Some p
      | None \<Rightarrow> if k \<in> set objectPrototypeKeys then Some emptyPerson else None)"

definition readTeam :: "(string \<rightharpoonup> Team) \<Rightarrow> string \<Rightarrow> Team option" where
  "readTeam ts k =
     (case ts k of
        Some t \<Rightarrow> Some t
      | None \<Rightarrow> if k \<in> set objectPrototypeKeys then Some emptyTeam else None)"

text \<open>Reading a property of a \<^verbatim>\<open>Partial\<close> object: absent reads as undefined.\<close>

definition readProperty :: "'a option option \<Rightarrow> 'a option" where
  "readProperty upd = (case upd of None \<Rightarrow> None | Some v \<Rightarrow> v)"

text \<open>\<^verbatim>\<open>{ ...currentPerson, ...updates }\<close>: a property present in updates wins.\<close>

definition overrideWith :: "'a option \<Rightarrow> 'a option option \<Rightarrow> 'a option" where
  "overrideWith old upd = (case upd of None \<Rightarrow> old | Some v \<Rightarrow> v)"

definition mergeUpdates :: "Person \<Rightarrow> PersonUpdates \<Rightarrow> Person" where
  "mergeUpdates p u =
     \<lparr>p_id = overrideWith (p_id p) (u_id u),
      p_name = overrideWith (p_name p) (u_name u),
      role = overrideWith (role p) (u_role u),
      level = overrideWith (level p) (u_level u),
      email = overrideWith (email p) (u_email u),
      avatar = overrideWith (avatar p) (u_avatar u),
      tags = overrideWith (tags p) (u_tags u),
      reportsTo = overrideWith (reportsTo p) (u_reportsTo u),
      teamId = overrideWith (teamId p) (u_teamId u)\<rparr>"

text \<open>
  \<^verbatim>\<open>newTeams[k] = { ...newTeams[k], personIds: newTeams[k].personIds.filter(id => id !== personId) }\<close>.
  Reading \<^verbatim>\<open>personIds\<close> of a team that is missing, or calling \<^verbatim>\<open>filter\<close> on a
  \<^verbatim>\<open>personIds\<close> that is undefined, throws a TypeError. (So does an inherited
  property: its \<^verbatim>\<open>personIds\<close> is undefined. The two cases need not be told apart.)
\<close>

definition removeMember :: "(string \<rightharpoonup> Team) \<Rightarrow> string \<Rightarrow> string \<Rightarrow> error + (string \<rightharpoonup> Team)" where
  "removeMember newTeams k personId =
     (case newTeams k of
        None \<Rightarrow> Inl TypeError
      | Some t \<Rightarrow>
          (case personIds t of
             None \<Rightarrow> Inl TypeError
           | Some ids \<Rightarrow> Inr (newTeams(k \<mapsto> t\<lparr>personIds := Some (filter (\<lambda>i. i \<noteq> personId) ids)\<rparr>))))"

text \<open>
  \<^verbatim>\<open>newTeams[k] = { ...newTeams[k], personIds: [...newTeams[k].personIds, personId] }\<close>.
  Spreading an undefined \<^verbatim>\<open>personIds\<close> into an array throws a TypeError as well.
\<close>

definition appendMember :: "(string \<rightharpoonup> Team) \<Rightarrow> string \<Rightarrow> string \<Rightarrow> error + (string \<rightharpoonup> Team)" where
  "appendMember newTeams k personId =
     (case newTeams k of
        None \<Rightarrow> Inl TypeError
      | Some t \<Rightarrow>
          (case personIds t of
             None \<Rightarrow> Inl TypeError
           | Some ids \<Rightarrow> Inr (newTeams(k \<mapsto> t\<lparr>personIds := Some (ids @ [personId])\<rparr>))))"

text \<open>\<^verbatim>\<open>x || []\<close> and \<^verbatim>\<open>xs?.includes(v)\<close> on a list that may be undefined.\<close>

definition orEmpty :: "'a list option \<Rightarrow> 'a list" where
  "orEmpty xs = (case xs of None \<Rightarrow> [] | Some ys \<Rightarrow> ys)"

definition includesOpt :: "'a list option \<Rightarrow> 'a \<Rightarrow> bool" where
  "includesOpt xs v = (case xs of None \<Rightarrow> False | Some ys \<Rightarrow> v \<in> set ys)"

text \<open>Toggling a value in a list: remove every occurrence if present, append otherwise.\<close>

definition toggleIn :: "'a list \<Rightarrow> 'a \<Rightarrow> 'a list" where
  "toggleIn xs v = (if v \<in> set xs then filter (\<lambda>p. p \<noteq> v) xs else xs @ [v])"

text \<open>
  The body of \<^verbatim>\<open>Object.keys(newPeople).forEach(id => ...)\<close> in DELETE_PERSON: a person
  whose manager is the deleted one gets \<^verbatim>\<open>reportsTo: undefined\<close>. Each iteration reads
  and writes its own key only, so the loop is the pointwise image of the map.
\<close>

definition clearManager :: "string \<Rightarrow> Person \<Rightarrow> Person" where
  "clearManager personId p =
     (if reportsTo p = Some personId then p\<lparr>reportsTo := None\<rparr> else p)"

text \<open>
  The body of \<^verbatim>\<open>Object.keys(newTeams).forEach(teamId => ...)\<close> in TOGGLE_ORG_PRODUCT:
  \<^verbatim>\<open>if (team.products?.includes(product)) newTeams[teamId] = { ...team, products: team.products.filter(p => p !== product) }\<close>.
\<close>

definition revokeProduct :: "AmplitudeProduct \<Rightarrow> Team \<Rightarrow> Team" where
  "revokeProduct product team =
     (case products team of
        None \<Rightarrow> team
      | Some ps \<Rightarrow>
          if product \<in> set ps
          then team\<lparr>products := Some (filter (\<lambda>p. p \<noteq> product) ps)\<rparr>
          else team)"

section \<open>Initial documents (mockData.ts)\<close>

definition mkTeam :: "string \<Rightarrow> string \<Rightarrow> string \<Rightarrow> string list \<Rightarrow> AmplitudeProduct list \<Rightarrow> Team" where
  "mkTeam i n c ps prods =
     \<lparr>t_id = Some i, t_name = Some n, color = Some c, personIds = Some ps, products = Some prods\<rparr>"

definition emptyTeamsList :: "(string \<times> Team) list" where
  "emptyTeamsList =
     [(''executive'', mkTeam ''executive'' ''Executive'' ''#1a1a2e'' [] []),
      (''product'', mkTeam ''product'' ''Product'' ''#16213e'' [] []),
      (''engineering'', mkTeam ''engineering'' ''Engineering'' ''#0f3460'' [] []),
      (''data-science'', mkTeam ''data-science'' ''Data Science'' ''#1a1a40'' [] []),
      (''sales'', mkTeam ''sales'' ''Sales'' ''#2d132c'' [] []),
      (''marketing'', mkTeam ''marketing'' ''Marketing'' ''#1e1e2f'' [] []),
      (''operations'', mkTeam ''operations'' ''Operations'' ''#252836'' [] [])]"

definition createEmptyOrgState :: OrgState where
  "createEmptyOrgState =
     \<lparr>teams = map_of emptyTeamsList, people = Map.empty, orgProducts = Some []\<rparr>"

definition mkPerson ::
    "string \<Rightarrow> string \<Rightarrow> string \<Rightarrow> RoleLevel \<Rightarrow> string \<Rightarrow> PersonTag list \<Rightarrow> string option \<Rightarrow> string \<Rightarrow> Person" where
  "mkPerson i n r l e ts m t =
     \<lparr>p_id = Some i, p_name = Some n, role = Some r, level = Some l, email = Some e,
      avatar = None, tags = Some ts, reportsTo = m, teamId = Some t\<rparr>"

definition sampleTeamsList :: "(string \<times> Team) list" where
  "sampleTeamsList =
     [(''executive'', mkTeam ''executive'' ''Executive'' ''#1a1a2e'' [''p1''] []),
      (''product'', mkTeam ''product'' ''Product'' ''#16213e'' [''p2'', ''p3'', ''p4'']
         [Analytics, Experiment, SessionReplay]),
      (''engineering'', mkTeam ''engineering'' ''Engineering'' ''#0f3460''
         [''p5'', ''p6'', ''p7'', ''p8''] [Analytics, SessionReplay]),
      (''data-science'', mkTeam ''data-science'' ''Data Science'' ''#1a1a40'' [''p9'', ''p10'']
         [Analytics, Experiment]),
      (''sales'', mkTeam ''sales'' ''Sales'' ''#2d132c'' [''p11'', ''p12''] []),
      (''marketing'', mkTeam ''marketing'' ''Marketing'' ''#1e1e2f'' [''p13'']
         [Analytics, GuidesSurveys]),
      (''operations'', mkTeam ''operations'' ''Operations'' ''#252836'' [''p14''] [])]"

definition samplePeopleList :: "(string \<times> Person) list" where
  "samplePeopleList =
     [(''p1'', mkPerson ''p1'' ''Sarah Chen'' ''Chief Technology Officer'' Executive
         ''sarah.chen@cisco.com'' [DecisionMaker] None ''executive''),
      (''p2'', mkPerson ''p2'' ''Marcus Williams'' ''VP of Product'' VP
         ''marcus.w@cisco.com'' [Champion, DecisionMaker] (Some ''p1'') ''product''),
      (''p3'', mkPerson ''p3'' ''Elena Rodriguez'' ''Director of Product'' Director
         ''elena.r@cisco.com'' [PowerUser] (Some ''p2'') ''product''),
      (''p4'', mkPerson ''p4'' ''James Park'' ''Senior Product Manager'' Manager
         ''james.p@cisco.com'' [Champion] (Some ''p3'') ''product''),
      (''p5'', mkPerson ''p5'' ''Aisha Patel'' ''VP of Engineering'' VP
         ''aisha.p@cisco.com'' [DecisionMaker] (Some ''p1'') ''engineering''),
      (''p6'', mkPerson ''p6'' ''David Kim'' ''Engineering Director'' Director
         ''david.k@cisco.com'' [Influencer] (Some ''p5'') ''engineering''),
      (''p7'', mkPerson ''p7'' ''Lisa Chang'' ''Staff Engineer'' IC
         ''lisa.c@cisco.com'' [PowerUser, Champion] (Some ''p6'') ''engineering''),
      (''p8'', mkPerson ''p8'' ''Michael Torres'' ''Senior Engineer'' IC
         ''michael.t@cisco.com'' [] (Some ''p6'') ''engineering''),
      (''p9'', mkPerson ''p9'' ''Priya Sharma'' ''Director of Data Science'' Director
         ''priya.s@cisco.com'' [PowerUser, Influencer] (Some ''p1'') ''data-science''),
      (''p10'', mkPerson ''p10'' ''Alex Johnson'' ''Senior Data Scientist'' IC
         ''alex.j@cisco.com'' [Champion] (Some ''p9'') ''data-science''),
      (''p11'', mkPerson ''p11'' ''Rachel Green'' ''VP of Sales'' VP
         ''rachel.g@cisco.com'' [DecisionMaker] (Some ''p1'') ''sales''),
      (''p12'', mkPerson ''p12'' ''Tom Anderson'' ''Account Executive'' IC
         ''tom.a@cisco.com'' [Influencer] (Some ''p11'') ''sales''),
      (''p13'', mkPerson ''p13'' ''Nina Foster'' ''Marketing Director'' Director
         ''nina.f@cisco.com'' [] (Some ''p1'') ''marketing''),
      (''p14'', mkPerson ''p14'' ''Chris Lee'' ''Operations Manager'' Manager
         ''chris.l@cisco.com'' [Blocker] (Some ''p1'') ''operations'')]"

definition initialOrgState :: OrgState where
  "initialOrgState =
     \<lparr>teams = map_of sampleTeamsList, people = map_of samplePeopleList,
      orgProducts = Some [Analytics, Experiment, SessionReplay, GuidesSurveys]\<rparr>"

section \<open>The reducer (OrgContext.tsx, orgReducer)\<close>

text \<open>
  The first argument is the value that \<^verbatim>\<open>generateId()\<close> returns in this call (it is
  built from the clock and a random number). A thrown exception is \<open>Inl\<close>.
\<close>

fun orgReducer :: "string \<Rightarrow> OrgState \<Rightarrow> OrgAction \<Rightarrow> error + OrgState" where
  "orgReducer gen state (MOVE_PERSON personId fromTeam toTeam) =
     (if fromTeam = toTeam then Inr state
      else
        (case removeMember (teams state) fromTeam personId of
           Inl e \<Rightarrow> Inl e
         | Inr newTeams \<Rightarrow>
             (case appendMember newTeams toTeam personId of
                Inl e \<Rightarrow> Inl e
              | Inr newTeams' \<Rightarrow>
                  Inr (state\<lparr>teams := newTeams',
                     people := (people state)(personId \<mapsto>
                       (spreadPerson (people state personId))\<lparr>teamId := Some toTeam\<rparr>)\<rparr>))))"
| "orgReducer gen state (ADD_PERSON person) =
     (let newPerson = person\<lparr>p_id := Some gen\<rparr> in
      case appendMember (teams state) (propertyKey (teamId person)) gen of
        Inl e \<Rightarrow> Inl e
      | Inr newTeams \<Rightarrow>
          Inr (state\<lparr>teams := newTeams, people := (people state)(gen \<mapsto> newPerson)\<rparr>))"
| "orgReducer gen state (UPDATE_PERSON personId updates) =
     (case readPerson (people state) personId of
        None \<Rightarrow> Inr state
      | Some currentPerson \<Rightarrow>
          (case readProperty (u_teamId updates) of
             Some newTeam \<Rightarrow>
               (if newTeam \<noteq> [] \<and> Some newTeam \<noteq> teamId currentPerson then
                  (case removeMember (teams state) (propertyKey (teamId currentPerson)) personId of
                     Inl e \<Rightarrow> Inl e
                   | Inr newTeams \<Rightarrow>
                       (case appendMember newTeams newTeam personId of
                          Inl e \<Rightarrow> Inl e
                        | Inr newTeams' \<Rightarrow>
                            Inr (state\<lparr>teams := newTeams',
                               people := (people state)(personId \<mapsto> mergeUpdates currentPerson updates)\<rparr>)))
                else
                  Inr (state\<lparr>people := (people state)(personId \<mapsto> mergeUpdates currentPerson updates)\<rparr>))
           | None \<Rightarrow>
               Inr (state\<lparr>people := (people state)(personId \<mapsto> mergeUpdates currentPerson updates)\<rparr>)))"
| "orgReducer gen state (DELETE_PERSON personId) =
     (case readPerson (people state) personId of
        None \<Rightarrow> Inr state
      | Some person \<Rightarrow>
          (case removeMember (teams state) (propertyKey (teamId person)) personId of
             Inl e \<Rightarrow> Inl e
           | Inr newTeams \<Rightarrow>
               (let newPeople = (people state)(personId := None);
                    newPeople' = (\<lambda>i. map_option (clearManager personId) (newPeople i))
                in Inr (state\<lparr>teams := newTeams, people := newPeople'\<rparr>))))"
| "orgReducer gen state (SET_REPORTS_TO personId managerId) =
     Inr (state\<lparr>people := (people state)(personId \<mapsto>
        (spreadPerson (people state personId))\<lparr>reportsTo := managerId\<rparr>)\<rparr>)"
| "orgReducer gen state (TOGGLE_TAG personId tag) =
     (case readPerson (people state) personId of
        None \<Rightarrow> Inr state
      | Some person \<Rightarrow>
          (case tags person of
             None \<Rightarrow> Inl TypeError
           | Some ts \<Rightarrow>
               Inr (state\<lparr>people := (people state)(personId \<mapsto> person\<lparr>tags := Some (toggleIn ts tag)\<rparr>)\<rparr>)))"
| "orgReducer gen state (RENAME_TEAM k newName) =
     Inr (state\<lparr>teams := (teams state)(k \<mapsto> (spreadTeam (teams state k))\<lparr>t_name := Some newName\<rparr>)\<rparr>)"
| "orgReducer gen state (ADD_TEAM team) =
     Inr (state\<lparr>teams := (teams state)(propertyKey (t_id team) \<mapsto> team)\<rparr>)"
| "orgReducer gen state (DELETE_TEAM k) =
     (case readTeam (teams state) k of
        None \<Rightarrow> Inr state
      | Some team \<Rightarrow>
          (case personIds team of
             None \<Rightarrow> Inl TypeError
           | Some ids \<Rightarrow>
               (if length ids > 0 then Inr state
                else Inr (state\<lparr>teams := (teams state)(k := None)\<rparr>))))"
| "orgReducer gen state (TOGGLE_TEAM_PRODUCT k product) =
     (case readTeam (teams state) k of
        None \<Rightarrow> Inr state
      | Some team \<Rightarrow>
          (if product \<notin> set (orEmpty (orgProducts state)) \<and> \<not> includesOpt (products team) product
           then Inr state
           else Inr (state\<lparr>teams := (teams state)(k \<mapsto>
                  team\<lparr>products := Some (toggleIn (orEmpty (products team)) product)\<rparr>)\<rparr>)))"
| "orgReducer gen state (TOGGLE_ORG_PRODUCT product) =
     (let newOrgProducts = toggleIn (orEmpty (orgProducts state)) product in
      if product \<notin> set newOrgProducts then
        (let newTeams = (\<lambda>k. map_option (revokeProduct product) (teams state k))
         in Inr (state\<lparr>teams := newTeams, orgProducts := Some newOrgProducts\<rparr>))
      else Inr (state\<lparr>orgProducts := Some newOrgProducts\<rparr>))"
| "orgReducer gen state (LOAD_ORG s) = Inr s"
| "orgReducer gen state CLEAR_ORG = Inr createEmptyOrgState"

section \<open>Browser functions\<close>

text \<open>
  A document as it is at run time. The type OrgState is what the TypeScript compiler
  checks; a value that comes out of \<^verbatim>\<open>JSON.parse\<close> is only cast to it. Of such an
  object the three properties of an OrgState are kept. \<^verbatim>\<open>teams\<close> and \<^verbatim>\<open>people\<close> are
  each \<open>Falsy\<close> (missing, undefined, null, false, 0 or the empty string), \<open>NotCollection\<close>
  (a truthy value that is no such object: a number, a string, true, an array), or a
  \<open>Collection\<close>. The code's tests \<^verbatim>\<open>!x.teams\<close> and \<^verbatim>\<open>x && x.teams && x.people\<close> see
  only whether the property is falsy.
\<close>

datatype 'a jsprop = Falsy | NotCollection | Collection 'a

record RawOrg =
  r_teams :: "(string \<rightharpoonup> Team) jsprop"
  r_people :: "(string \<rightharpoonup> Person) jsprop"
  r_orgProducts :: "AmplitudeProduct list option"

text \<open>A well-typed document as a run-time value.\<close>

definition toRaw :: "OrgState \<Rightarrow> RawOrg" where
  "toRaw s = \<lparr>r_teams = Collection (teams s), r_people = Collection (people s),
     r_orgProducts = orgProducts s\<rparr>"

text \<open>
  What \<^verbatim>\<open>JSON.parse\<close> can return, as far as this code looks at it: \<^verbatim>\<open>null\<close>
  (reading a property of it throws a TypeError), an object, or any other value (a
  number, string, boolean or array, which has no \<^verbatim>\<open>teams\<close> and no \<^verbatim>\<open>people\<close>
  property).
\<close>

datatype jsvalue = JSNull | JSOther | JSObject RawOrg

text \<open>
  The functions of the JavaScript platform that the persistence and sharing code calls.
  They are not part of the repository, so they are parameters of the model. A thrown
  exception is \<open>Inl\<close>. \<open>storageAccepts\<close> says whether \<^verbatim>\<open>localStorage.setItem\<close>
  stores the value or throws (quota).
\<close>

record platform =
  JSON_stringify :: "RawOrg \<Rightarrow> string"
  JSON_stringify_pretty :: "RawOrg \<Rightarrow> string"
  JSON_stringify_orgs :: "SavedOrg list \<Rightarrow> string"
  JSON_parse :: "string \<Rightarrow> error + jsvalue"
  encodeURIComponent :: "string \<Rightarrow> error + string"
  decodeURIComponent :: "string \<Rightarrow> error + string"
  escape :: "string \<Rightarrow> string"
  unescape :: "string \<Rightarrow> string"
  btoa :: "string \<Rightarrow> error + string"
  atob :: "string \<Rightarrow> error + string"
  storageAccepts :: "(string \<rightharpoonup> string) \<Rightarrow> string \<Rightarrow> string \<Rightarrow> bool"

text \<open>The clock: the text of \<^verbatim>\<open>Date.now()\<close> and of the two \<^verbatim>\<open>new Date().toISOString()\<close>.\<close>

record clock =
  dateNow :: string
  isoCreated :: string
  isoUpdated :: string

text \<open>
  The test \<^verbatim>\<open>state && state.teams && state.people\<close> (and its negation
  \<^verbatim>\<open>!x.teams || !x.people\<close>): it passes for every object whose two properties are
  truthy, and the object itself is then used as an OrgState.
\<close>

definition validOrg :: "jsvalue \<Rightarrow> RawOrg option" where
  "validOrg v =
     (case v of
        JSObject r \<Rightarrow> if r_teams r = Falsy \<or> r_people r = Falsy then None else Some r
      | _ \<Rightarrow> None)"

section \<open>Sharing by link (shareUtils.ts)\<close>

definition encodeOrgToUrl :: "platform \<Rightarrow> RawOrg \<Rightarrow> error + string" where
  "encodeOrgToUrl pf s =
     (let json = JSON_stringify pf s in
      case encodeURIComponent pf json of
        Inl e \<Rightarrow> Inl FailedToCreateShareLink
      | Inr u \<Rightarrow>
          (case btoa pf (unescape pf u) of
             Inl e \<Rightarrow> Inl FailedToCreateShareLink
           | Inr base64 \<Rightarrow> Inr base64))"

definition decodeOrgFromUrl :: "platform \<Rightarrow> string \<Rightarrow> RawOrg option" where
  "decodeOrgFromUrl pf encoded =
     (case atob pf encoded of
        Inl e \<Rightarrow> None
      | Inr bytes \<Rightarrow>
          (case decodeURIComponent pf (escape pf bytes) of
             Inl e \<Rightarrow> None
           | Inr json \<Rightarrow>
               (case JSON_parse pf json of
                  Inl e \<Rightarrow> None
                | Inr v \<Rightarrow> validOrg v)))"

section \<open>The provider: saved organisations and storage (OrgContext.tsx)\<close>

text \<open>
  The state of the provider component: the catalog \<open>savedOrgs\<close>, the id of the current
  organisation, the current document (the run-time value that \<^verbatim>\<open>useReducer\<close> holds),
  and the browser's \<^verbatim>\<open>localStorage\<close>.
\<close>

record Provider =
  savedOrgs :: "SavedOrg list"
  currentOrgId :: string
  state :: RawOrg
  localStorage :: "string \<rightharpoonup> string"

definition STORAGE_KEY :: string where "STORAGE_KEY = ''orgmapper_data''"
definition CURRENT_ORG_KEY :: string where "CURRENT_ORG_KEY = ''orgmapper_current''"
definition ORGS_LIST_KEY :: string where "ORGS_LIST_KEY = ''orgmapper_orgs''"

definition orgKey :: "string \<Rightarrow> string" where
  "orgKey orgId = STORAGE_KEY @ ''_'' @ orgId"

text \<open>\<^verbatim>\<open>try { localStorage.setItem(k, v) } catch (e) { console.error(...) }\<close>.\<close>

definition setItemCaught :: "platform \<Rightarrow> string \<Rightarrow> string \<Rightarrow> (string \<rightharpoonup> string) \<Rightarrow> (string \<rightharpoonup> string)" where
  "setItemCaught pf k v ls = (if storageAccepts pf ls k v then ls(k \<mapsto> v) else ls)"


definition saveToStorage :: "platform \<Rightarrow> string \<Rightarrow> RawOrg \<Rightarrow> (string \<rightharpoonup> string) \<Rightarrow> (string \<rightharpoonup> string)" where
  "saveToStorage pf orgId s ls = setItemCaught pf (orgKey orgId) (JSON_stringify pf s) ls"

definition saveOrgsList :: "platform \<Rightarrow> SavedOrg list \<Rightarrow> (string \<rightharpoonup> string) \<Rightarrow> (string \<rightharpoonup> string)" where
  "saveOrgsList pf orgs ls = setItemCaught pf ORGS_LIST_KEY (JSON_stringify_orgs pf orgs) ls"

definition setCurrentOrgId :: "platform \<Rightarrow> string \<Rightarrow> (string \<rightharpoonup> string) \<Rightarrow> (string \<rightharpoonup> string)" where
  "setCurrentOrgId pf orgId ls = setItemCaught pf CURRENT_ORG_KEY orgId ls"

text \<open>
  \<^verbatim>\<open>dispatch({ type: 'LOAD_ORG', state: s })\<close>: the LOAD_ORG case of the reducer returns
  \<^verbatim>\<open>action.state\<close> without looking at it, so \<open>s\<close> becomes the document whatever it is.
\<close>

definition dispatchLoad :: "RawOrg \<Rightarrow> Provider \<Rightarrow> Provider" where
  "dispatchLoad s p = p\<lparr>state := s\<rparr>"



definition exportOrg :: "platform \<Rightarrow> Provider \<Rightarrow> string" where
  "exportOrg pf p = JSON_stringify_pretty pf (state p)"

text \<open>
  The part that importOrg and importSharedOrg share once the document is accepted: store
  it under the new id, append the catalog record, load it and make it current.
\<close>

definition addImported :: "platform \<Rightarrow> clock \<Rightarrow> string \<Rightarrow> string \<Rightarrow> RawOrg \<Rightarrow> Provider \<Rightarrow> Provider" where
  "addImported pf c newId name s p =
     (let newOrg = \<lparr>so_id = newId, so_name = name, createdAt = isoCreated c, updatedAt = isoUpdated c\<rparr>;
          p1 = p\<lparr>localStorage := saveToStorage pf newId s (localStorage p)\<rparr>;
          updatedOrgs = savedOrgs p @ [newOrg];
          p2 = p1\<lparr>savedOrgs := updatedOrgs\<rparr>;
          p3 = p2\<lparr>localStorage := saveOrgsList pf updatedOrgs (localStorage p2)\<rparr>;
          p4 = dispatchLoad s p3;
          p5 = p4\<lparr>currentOrgId := newId\<rparr>
      in p5\<lparr>localStorage := setCurrentOrgId pf newId (localStorage p5)\<rparr>)"

definition importOrg :: "platform \<Rightarrow> clock \<Rightarrow> string \<Rightarrow> string \<Rightarrow> Provider \<Rightarrow> error option \<times> Provider" where
  "importOrg pf c jsonData name p =
     (case JSON_parse pf jsonData of
        Inl e \<Rightarrow> (Some e, p)
      | Inr importedState \<Rightarrow>
          (case importedState of
             JSNull \<Rightarrow> (Some TypeError, p)
           | JSOther \<Rightarrow> (Some InvalidOrgData, p)
           | JSObject r \<Rightarrow>
               (case validOrg (JSObject r) of
                  None \<Rightarrow> (Some InvalidOrgData, p)
                | Some s \<Rightarrow> (None, addImported pf c (''org_'' @ dateNow c) name s p))))"

definition importSharedOrg :: "platform \<Rightarrow> clock \<Rightarrow> jsvalue \<Rightarrow> string \<Rightarrow> Provider \<Rightarrow> error option \<times> Provider" where
  "importSharedOrg pf c sharedState name p =
     (case sharedState of
        JSNull \<Rightarrow> (Some TypeError, p)
      | JSOther \<Rightarrow> (None, p)
      | JSObject r \<Rightarrow>
          (case validOrg (JSObject r) of
             None \<Rightarrow> (None, p)
           | Some s \<Rightarrow> (None, addImported pf c (''shared_'' @ dateNow c) (name @ '' (Copy)'') s p)))"

text \<open>
  A decoded payload that lacks the teams collection or the people collection: it is no
  object, or one of the two properties is not a collection.
\<close>

fun isCollection :: "'a jsprop \<Rightarrow> bool" where
  "isCollection (Collection m) = True"
| "isCollection Falsy = False"
| "isCollection NotCollection = False"

fun lacks_collections :: "jsvalue \<Rightarrow> bool" where
  "lacks_collections (JSObject r) = (\<not> isCollection (r_teams r) \<or> \<not> isCollection (r_people r))"
| "lacks_collections JSNull = True"
| "lacks_collections JSOther = True"

text \<open>The payloads that the truthiness test does reject.\<close>

fun lacks_truthy :: "jsvalue \<Rightarrow> bool" where
  "lacks_truthy (JSObject r) = (r_teams r = Falsy \<or> r_people r = Falsy)"
| "lacks_truthy JSNull = True"
| "lacks_truthy JSOther = True"

text \<open>
  What the round trip of the link codec assumes of the platform, for the JSON text \<open>j\<close> of one document:
  \<^verbatim>\<open>encodeURIComponent\<close> and \<^verbatim>\<open>btoa\<close> do not throw on it, \<^verbatim>\<open>atob\<close> inverts
  \<^verbatim>\<open>btoa\<close>, and \<^verbatim>\<open>decodeURIComponent(escape(.))\<close> inverts
  \<^verbatim>\<open>unescape(encodeURIComponent(.))\<close>.
\<close>

definition link_codec_inverts :: "platform \<Rightarrow> string \<Rightarrow> bool" where
  "link_codec_inverts pf j =
     (case encodeURIComponent pf j of
        Inl e \<Rightarrow> False
      | Inr u \<Rightarrow>
          (case btoa pf (unescape pf u) of
             Inl e \<Rightarrow> False
           | Inr b \<Rightarrow>
               atob pf b = Inr (unescape pf u)
               \<and> decodeURIComponent pf (escape pf (unescape pf u)) = Inr j))"

text \<open>
  \<^verbatim>\<open>JSON.parse\<close> inverts both \<^verbatim>\<open>JSON.stringify\<close> calls on the document \<open>s\<close> (a
  property that holds \<^verbatim>\<open>undefined\<close> is left out of the text, and reads as
  \<^verbatim>\<open>undefined\<close> again).
\<close>

definition json_inverts :: "platform \<Rightarrow> OrgState \<Rightarrow> bool" where
  "json_inverts pf s \<longleftrightarrow>
     JSON_parse pf (JSON_stringify pf (toRaw s)) = Inr (JSObject (toRaw s))
     \<and> JSON_parse pf (JSON_stringify_pretty pf (toRaw s)) = Inr (JSObject (toRaw s))"

section \<open>Example data\<close>

text \<open>
  A platform for the examples: every document has the JSON text \<open>doc\<close>, which parses
  to the value \<open>v\<close>; the string codecs are the identity and storage is never full.
\<close>

definition examplePlatform :: "jsvalue \<Rightarrow> platform" where
  "examplePlatform v =
     \<lparr>JSON_stringify = (\<lambda>s. ''doc''),
      JSON_stringify_pretty = (\<lambda>s. ''doc''),
      JSON_stringify_orgs = (\<lambda>orgs. ''orgs''),
      JSON_parse = (\<lambda>t. if t = ''doc'' then Inr v else Inl SyntaxError),
      encodeURIComponent = Inr,
      decodeURIComponent = Inr,
      escape = (\<lambda>t. t),
      unescape = (\<lambda>t. t),
      btoa = Inr,
      atob = Inr,
      storageAccepts = (\<lambda>ls k t. True)\<rparr>"

text \<open>The values of the texts \<^verbatim>\<open>{"people":{}}\<close> and \<^verbatim>\<open>{"teams":1,"people":"x"}\<close>.\<close>

definition noTeams :: jsvalue where
  "noTeams = JSObject \<lparr>r_teams = Falsy, r_people = Collection Map.empty, r_orgProducts = None\<rparr>"

definition notCollections :: RawOrg where
  "notCollections = \<lparr>r_teams = NotCollection, r_people = NotCollection, r_orgProducts = None\<rparr>"

definition exampleClock :: clock where
  "exampleClock = \<lparr>dateNow = ''1700000000000'', isoCreated = ''2023-11-14T22:13:20.000Z'',
     isoUpdated = ''2023-11-14T22:13:20.000Z''\<rparr>"

definition defaultOrg :: SavedOrg where
  "defaultOrg = \<lparr>so_id = ''default'', so_name = ''Cisco (Sample)'',
     createdAt = ''2023-11-14T22:13:20.000Z'', updatedAt = ''2023-11-14T22:13:20.000Z''\<rparr>"


definition exampleProvider :: "SavedOrg list \<Rightarrow> Provider" where
  "exampleProvider orgs =
     \<lparr>savedOrgs = orgs, currentOrgId = ''default'', state = toRaw initialOrgState,
      localStorage = [orgKey ''default'' \<mapsto> ''doc'', orgKey ''org_1700000000000'' \<mapsto> ''doc'']\<rparr>"

section \<open>Reachable documents and membership consistency\<close>

text \<open>
  The preconditions of the commands as the specification's table states them. A team or
  person "exists" when its key is in the map; AddPerson's target team is the one that
  \<open>teamId\<close> names.
\<close>

fun stated_precondition :: "OrgState \<Rightarrow> string \<Rightarrow> OrgAction \<Rightarrow> bool" where
  "stated_precondition D gen (ADD_PERSON person) =
     (case teamId person of None \<Rightarrow> False | Some k \<Rightarrow> teams D k \<noteq> None)"
| "stated_precondition D gen (UPDATE_PERSON x updates) = (people D x \<noteq> None)"
| "stated_precondition D gen (MOVE_PERSON x fromTeam toTeam) =
     (people D x \<noteq> None \<and> fromTeam \<noteq> toTeam)"
| "stated_precondition D gen (DELETE_PERSON x) = (people D x \<noteq> None)"
| "stated_precondition D gen (SET_REPORTS_TO x m) = (people D x \<noteq> None)"
| "stated_precondition D gen (TOGGLE_TAG x tag) = (people D x \<noteq> None)"
| "stated_precondition D gen (RENAME_TEAM k n) = (teams D k \<noteq> None)"
| "stated_precondition D gen (ADD_TEAM team) = (teams D (propertyKey (t_id team)) = None)"
| "stated_precondition D gen (DELETE_TEAM k) =
     (case teams D k of None \<Rightarrow> False | Some T \<Rightarrow> personIds T = Some [])"
| "stated_precondition D gen (TOGGLE_TEAM_PRODUCT k p) = (teams D k \<noteq> None)"
| "stated_precondition D gen (TOGGLE_ORG_PRODUCT p) = True"
| "stated_precondition D gen (LOAD_ORG s) = True"
| "stated_precondition D gen CLEAR_ORG = True"

text \<open>
  The people whose \<open>teamId\<close> is \<open>k\<close>. A person's identifier is its key in the
  \<open>people\<close> map: that is what \<open>personIds\<close> holds and what the lookups use.
\<close>

definition membersOf :: "(string \<rightharpoonup> Person) \<Rightarrow> string option \<Rightarrow> string set" where
  "membersOf ps k = {x. \<exists>P. ps x = Some P \<and> teamId P = k}"

text \<open>
  Membership consistency as the specification states it: for every team \<open>T\<close>,
  \<open>T.personIds\<close> is a duplicate-free list of exactly the people with
  \<open>teamId = T.id\<close>.
\<close>

definition membership_consistent :: "OrgState \<Rightarrow> bool" where
  "membership_consistent D \<longleftrightarrow>
     (\<forall>k T. teams D k = Some T \<longrightarrow>
        (\<exists>ids. personIds T = Some ids \<and> distinct ids \<and> set ids = membersOf (people D) (t_id T)))"

text \<open>
  The invariant the reducer keeps: each team is stored under its own id, the membership
  lists are consistent, and each person's \<open>teamId\<close> names a team of the document.
\<close>

definition teams_keyed :: "OrgState \<Rightarrow> bool" where
  "teams_keyed D \<longleftrightarrow> (\<forall>k T. teams D k = Some T \<longrightarrow> t_id T = Some k)"

definition team_refs_exist :: "OrgState \<Rightarrow> bool" where
  "team_refs_exist D \<longleftrightarrow>
     (\<forall>x P. people D x = Some P \<longrightarrow> (\<exists>k. teamId P = Some k \<and> teams D k \<noteq> None))"

definition doc_invariant :: "OrgState \<Rightarrow> bool" where
  "doc_invariant D \<longleftrightarrow> teams_keyed D \<and> membership_consistent D \<and> team_refs_exist D"

text \<open>
  What the reducer needs on top of the stated preconditions to keep the invariant:
  MOVE_PERSON's \<open>fromTeam\<close> is the person's current team; ADD_PERSON's generated id is
  not yet a key of \<open>people\<close>; UPDATE_PERSON's \<open>teamId\<close>, when the updates have one, is a
  non-empty string; ADD_TEAM's team has an id and an empty membership list; LOAD_ORG
  loads a document that satisfies the invariant.
\<close>

fun extra_precondition :: "OrgState \<Rightarrow> string \<Rightarrow> OrgAction \<Rightarrow> bool" where
  "extra_precondition D gen (MOVE_PERSON x fromTeam toTeam) =
     (case people D x of None \<Rightarrow> False | Some P \<Rightarrow> teamId P = Some fromTeam)"
| "extra_precondition D gen (ADD_PERSON person) = (people D gen = None)"
| "extra_precondition D gen (UPDATE_PERSON x updates) =
     (case u_teamId updates of None \<Rightarrow> True | Some None \<Rightarrow> False | Some (Some k) \<Rightarrow> k \<noteq> [])"
| "extra_precondition D gen (ADD_TEAM team) = (t_id team \<noteq> None \<and> personIds team = Some [])"
| "extra_precondition D gen (LOAD_ORG s) = doc_invariant s"
| "extra_precondition D gen a = True"

definition sufficient_precondition :: "OrgState \<Rightarrow> string \<Rightarrow> OrgAction \<Rightarrow> bool" where
  "sufficient_precondition D gen a \<longleftrightarrow> stated_precondition D gen a \<and> extra_precondition D gen a"

text \<open>
  The documents reachable from the empty or the sample document by commands that satisfy
  \<open>pre\<close> and on which the reducer returns.
\<close>

inductive reachable :: "(OrgState \<Rightarrow> string \<Rightarrow> OrgAction \<Rightarrow> bool) \<Rightarrow> OrgState \<Rightarrow> bool"
  for pre :: "OrgState \<Rightarrow> string \<Rightarrow> OrgAction \<Rightarrow> bool" where
  reach_empty: "reachable pre createEmptyOrgState"
| reach_sample: "reachable pre initialOrgState"
| reach_step: "reachable pre D \<Longrightarrow> pre D gen a \<Longrightarrow> orgReducer gen D a = Inr D' \<Longrightarrow> reachable pre D'"

section \<open>Properties of the reducer\<close>

subsection \<open>Lookups in the sample document\<close>

lemma sample_people_p1:
  "people initialOrgState ''p1'' = Some (mkPerson ''p1'' ''Sarah Chen'' ''Chief Technology Officer''
     Executive ''sarah.chen@cisco.com'' [DecisionMaker] None ''executive'')"
  by (simp add: initialOrgState_def samplePeopleList_def)

lemma sample_people_p2:
  "people initialOrgState ''p2'' = Some (mkPerson ''p2'' ''Marcus Williams'' ''VP of Product'' VP
     ''marcus.w@cisco.com'' [Champion, DecisionMaker] (Some ''p1'') ''product'')"
  by (simp add: initialOrgState_def samplePeopleList_def)

lemma sample_people_p3:
  "people initialOrgState ''p3'' = Some (mkPerson ''p3'' ''Elena Rodriguez'' ''Director of Product''
     Director ''elena.r@cisco.com'' [PowerUser] (Some ''p2'') ''product'')"
  by (simp add: initialOrgState_def samplePeopleList_def)

lemma sample_people_p4:
  "people initialOrgState ''p4'' = Some (mkPerson ''p4'' ''James Park'' ''Senior Product Manager''
     Manager ''james.p@cisco.com'' [Champion] (Some ''p3'') ''product'')"
  by (simp add: initialOrgState_def samplePeopleList_def)

lemma sample_teams_executive:
  "teams initialOrgState ''executive'' = Some (mkTeam ''executive'' ''Executive'' ''#1a1a2e'' [''p1''] [])"
  by (simp add: initialOrgState_def sampleTeamsList_def)

lemma sample_teams_product:
  "teams initialOrgState ''product'' = Some (mkTeam ''product'' ''Product'' ''#16213e''
     [''p2'', ''p3'', ''p4''] [Analytics, Experiment, SessionReplay])"
  by (simp add: initialOrgState_def sampleTeamsList_def)

lemma sample_teams_sales:
  "teams initialOrgState ''sales'' = Some (mkTeam ''sales'' ''Sales'' ''#2d132c'' [''p11'', ''p12''] [])"
  by (simp add: initialOrgState_def sampleTeamsList_def)

lemma empty_teams_sales:
  "teams createEmptyOrgState ''sales'' = Some (mkTeam ''sales'' ''Sales'' ''#2d132c'' [] [])"
  by (simp add: createEmptyOrgState_def emptyTeamsList_def)

lemma readPerson_own [simp]: "ps x = Some P \<Longrightarrow> readPerson ps x = Some P"
  by (simp add: readPerson_def)

lemma readTeam_own [simp]: "ts k = Some T \<Longrightarrow> readTeam ts k = Some T"
  by (simp add: readTeam_def)

lemma personIds_mkTeam: "personIds (mkTeam i n c ps prods) = Some ps"
  by (simp add: mkTeam_def)

lemma teamId_mkPerson: "teamId (mkPerson i n r l e ts m t) = Some t"
  by (simp add: mkPerson_def)

subsection \<open>Deleting a team\<close>

text \<open>
  C7. For a team that exists under key \<open>k\<close> with membership list \<open>ids\<close>: DELETE_TEAM
  returns the document itself when \<open>ids\<close> has a member, and when \<open>ids\<close> is empty it
  returns the document with the key \<open>k\<close> removed from \<open>teams\<close> and nothing else changed.
\<close>

theorem deleteTeam_guard:
  assumes "teams D k = Some T" and "personIds T = Some ids"
  shows "orgReducer g D (DELETE_TEAM k) =
           (if ids \<noteq> [] then Inr D else Inr (D\<lparr>teams := (teams D)(k := None)\<rparr>))"
  using assms by simp

theorem deleteTeam_guard_witness:
  "teams initialOrgState ''sales'' = Some (mkTeam ''sales'' ''Sales'' ''#2d132c'' [''p11'', ''p12''] [])
   \<and> personIds (mkTeam ''sales'' ''Sales'' ''#2d132c'' [''p11'', ''p12''] []) = Some [''p11'', ''p12'']
   \<and> orgReducer ''g'' initialOrgState (DELETE_TEAM ''sales'') = Inr initialOrgState
   \<and> teams createEmptyOrgState ''sales'' = Some (mkTeam ''sales'' ''Sales'' ''#2d132c'' [] [])
   \<and> orgReducer ''g'' createEmptyOrgState (DELETE_TEAM ''sales'')
       = Inr (createEmptyOrgState\<lparr>teams := (teams createEmptyOrgState)(''sales'' := None)\<rparr>)"
  using sample_teams_sales empty_teams_sales
    deleteTeam_guard [OF sample_teams_sales personIds_mkTeam, of "''g''"]
    deleteTeam_guard [OF empty_teams_sales personIds_mkTeam, of "''g''"]
  by (simp add: personIds_mkTeam)

subsection \<open>Toggling an organisation product\<close>

lemma revokeProduct_excludes: "\<not> includesOpt (products (revokeProduct p T)) p"
  by (simp add: revokeProduct_def includesOpt_def split: option.splits)



lemma revokeProduct_filter:
  "revokeProduct p T = T\<lparr>products := map_option (filter (\<lambda>q. q \<noteq> p)) (products T)\<rparr>"
proof (cases "products T")
  case None
  then show ?thesis by (simp add: revokeProduct_def)
next
  case (Some ps)
  show ?thesis
  proof (cases "p \<in> set ps")
    case True
    then show ?thesis using Some by (simp add: revokeProduct_def)
  next
    case False
    then have "filter (\<lambda>q. q \<noteq> p) ps = ps" by (auto simp: filter_id_conv)
    then show ?thesis using Some False by (simp add: revokeProduct_def)
  qed
qed

text \<open>
  C6. When the product \<open>p\<close> is in \<open>orgProducts\<close>, TOGGLE_ORG_PRODUCT returns exactly
  this document: \<open>orgProducts\<close> is the old list without \<open>p\<close> (the other products stay,
  in their order), every team is the old team with \<open>p\<close> filtered out of its \<open>products\<close>
  (a team without a \<open>products\<close> list is unchanged), and \<open>people\<close> is the same map. So
  afterwards neither the organisation nor any team lists \<open>p\<close>.
\<close>

theorem toggleOrgProduct_off:
  assumes "p \<in> set (orEmpty (orgProducts D))"
  shows "\<exists>D'. orgReducer g D (TOGGLE_ORG_PRODUCT p) = Inr D'
           \<and> D' = D\<lparr>teams := (\<lambda>k. map_option
                     (\<lambda>T. T\<lparr>products := map_option (filter (\<lambda>q. q \<noteq> p)) (products T)\<rparr>) (teams D k)),
                   orgProducts := Some (filter (\<lambda>q. q \<noteq> p) (orEmpty (orgProducts D)))\<rparr>
           \<and> p \<notin> set (orEmpty (orgProducts D'))
           \<and> (\<forall>k T'. teams D' k = Some T' \<longrightarrow> \<not> includesOpt (products T') p)
           \<and> people D' = people D"
proof -
  let ?new = "filter (\<lambda>q. q \<noteq> p) (orEmpty (orgProducts D))"
  let ?D' = "D\<lparr>teams := (\<lambda>k. map_option
                     (\<lambda>T. T\<lparr>products := map_option (filter (\<lambda>q. q \<noteq> p)) (products T)\<rparr>) (teams D k)),
                orgProducts := Some ?new\<rparr>"
  have tgl: "toggleIn (orEmpty (orgProducts D)) p = ?new"
    using assms by (simp add: toggleIn_def)
  have body: "revokeProduct p = (\<lambda>T. T\<lparr>products := map_option (filter (\<lambda>q. q \<noteq> p)) (products T)\<rparr>)"
    by (rule ext) (rule revokeProduct_filter)
  have run: "orgReducer g D (TOGGLE_ORG_PRODUCT p) = Inr ?D'"
    by (simp add: tgl body Let_def)
  have org: "p \<notin> set (orEmpty (orgProducts ?D'))"
    by (simp add: orEmpty_def)
  have tms: "\<forall>k T'. teams ?D' k = Some T' \<longrightarrow> \<not> includesOpt (products T') p"
  proof (intro allI impI)
    fix k T' assume "teams ?D' k = Some T'"
    then obtain T where "T' = T\<lparr>products := map_option (filter (\<lambda>q. q \<noteq> p)) (products T)\<rparr>"
      by auto
    then show "\<not> includesOpt (products T') p"
      by (cases "products T") (simp_all add: includesOpt_def)
  qed
  have ppl: "people ?D' = people D" by simp
  show ?thesis
  proof (intro exI [of _ ?D'] conjI)
    show "orgReducer g D (TOGGLE_ORG_PRODUCT p) = Inr ?D'" by (rule run)
    show "?D' = ?D'" by (rule refl)
    show "p \<notin> set (orEmpty (orgProducts ?D'))" by (rule org)
    show "\<forall>k T'. teams ?D' k = Some T' \<longrightarrow> \<not> includesOpt (products T') p" by (rule tms)
    show "people ?D' = people D" by (rule ppl)
  qed
qed

theorem toggleOrgProduct_off_witness:
  "Analytics \<in> set (orEmpty (orgProducts initialOrgState))
   \<and> orgProducts (projr (orgReducer ''g'' initialOrgState (TOGGLE_ORG_PRODUCT Analytics)))
       = Some [Experiment, SessionReplay, GuidesSurveys]
   \<and> products (the (teams (projr (orgReducer ''g'' initialOrgState (TOGGLE_ORG_PRODUCT Analytics)))
        ''product'')) = Some [Experiment, SessionReplay]
   \<and> products (the (teams (projr (orgReducer ''g'' initialOrgState (TOGGLE_ORG_PRODUCT Analytics)))
        ''sales'')) = Some []"
proof -
  have h: "Analytics \<in> set (orEmpty (orgProducts initialOrgState))"
    by (simp add: initialOrgState_def orEmpty_def)
  from toggleOrgProduct_off [OF h, of "''g''"] obtain D' where
    run: "orgReducer ''g'' initialOrgState (TOGGLE_ORG_PRODUCT Analytics) = Inr D'"
    and D': "D' = initialOrgState\<lparr>teams := (\<lambda>k. map_option
                     (\<lambda>T. T\<lparr>products := map_option (filter (\<lambda>q. q \<noteq> Analytics)) (products T)\<rparr>)
                     (teams initialOrgState k)),
                   orgProducts := Some (filter (\<lambda>q. q \<noteq> Analytics) (orEmpty (orgProducts initialOrgState)))\<rparr>"
    by (elim exE conjE) (rule that, assumption+)
  have o: "orgProducts D' = Some [Experiment, SessionReplay, GuidesSurveys]"
    by (simp add: D' initialOrgState_def orEmpty_def)
  have a: "products (the (teams D' ''product'')) = Some [Experiment, SessionReplay]"
    by (simp add: D' sample_teams_product mkTeam_def)
  have b: "products (the (teams D' ''sales'')) = Some []"
    by (simp add: D' sample_teams_sales mkTeam_def)
  show ?thesis
    using h o a b unfolding run by simp
qed

subsection \<open>Deleting a person\<close>

text \<open>
  C5. For a person \<open>X\<close> stored under \<open>x\<close> whose team exists and has a membership list:
  DELETE_PERSON returns a document in which \<open>x\<close> is no longer a key of \<open>people\<close>; the
  team of \<open>X\<close> has \<open>x\<close> filtered out of its \<open>personIds\<close> and the other teams are
  unchanged; every other person whose \<open>reportsTo\<close> was \<open>x\<close> is the same person with
  \<open>reportsTo\<close> undefined; every other person whose \<open>reportsTo\<close> was not \<open>x\<close> is
  unchanged; no person is added; \<open>orgProducts\<close> is unchanged.
\<close>

theorem deletePerson_cascade:
  assumes "people D x = Some X"
    and "teams D (propertyKey (teamId X)) = Some T"
    and "personIds T = Some ids"
  shows "\<exists>D'. orgReducer g D (DELETE_PERSON x) = Inr D'
           \<and> people D' x = None
           \<and> teams D' = (teams D)(propertyKey (teamId X) \<mapsto>
                 T\<lparr>personIds := Some (filter (\<lambda>i. i \<noteq> x) ids)\<rparr>)
           \<and> (\<forall>y P. y \<noteq> x \<and> people D y = Some P \<and> reportsTo P = Some x \<longrightarrow>
                 people D' y = Some (P\<lparr>reportsTo := None\<rparr>))
           \<and> (\<forall>y P. y \<noteq> x \<and> people D y = Some P \<and> reportsTo P \<noteq> Some x \<longrightarrow>
                 people D' y = Some P)
           \<and> (\<forall>y. people D y = None \<longrightarrow> people D' y = None)
           \<and> orgProducts D' = orgProducts D"
  using assms by (simp add: removeMember_def clearManager_def Let_def)

theorem deletePerson_cascade_witness:
  "people initialOrgState ''p2'' = Some (mkPerson ''p2'' ''Marcus Williams'' ''VP of Product'' VP
     ''marcus.w@cisco.com'' [Champion, DecisionMaker] (Some ''p1'') ''product'')
   \<and> teams initialOrgState ''product'' = Some (mkTeam ''product'' ''Product'' ''#16213e''
     [''p2'', ''p3'', ''p4''] [Analytics, Experiment, SessionReplay])
   \<and> people (projr (orgReducer ''g'' initialOrgState (DELETE_PERSON ''p2''))) ''p2'' = None
   \<and> personIds (the (teams (projr (orgReducer ''g'' initialOrgState (DELETE_PERSON ''p2''))) ''product''))
       = Some [''p3'', ''p4'']
   \<and> people (projr (orgReducer ''g'' initialOrgState (DELETE_PERSON ''p2''))) ''p3''
       = Some (mkPerson ''p3'' ''Elena Rodriguez'' ''Director of Product''
           Director ''elena.r@cisco.com'' [PowerUser] None ''product'')
   \<and> people (projr (orgReducer ''g'' initialOrgState (DELETE_PERSON ''p2''))) ''p4''
       = Some (mkPerson ''p4'' ''James Park'' ''Senior Product Manager''
           Manager ''james.p@cisco.com'' [Champion] (Some ''p3'') ''product'')"
proof -
  have k: "propertyKey (teamId (mkPerson ''p2'' ''Marcus Williams'' ''VP of Product'' VP
     ''marcus.w@cisco.com'' [Champion, DecisionMaker] (Some ''p1'') ''product'')) = ''product''"
    by (simp add: propertyKey_def mkPerson_def)
  have t: "teams initialOrgState (propertyKey (teamId (mkPerson ''p2'' ''Marcus Williams''
     ''VP of Product'' VP ''marcus.w@cisco.com'' [Champion, DecisionMaker] (Some ''p1'') ''product'')))
     = Some (mkTeam ''product'' ''Product'' ''#16213e''
     [''p2'', ''p3'', ''p4''] [Analytics, Experiment, SessionReplay])"
    using sample_teams_product by (simp only: k)
  from deletePerson_cascade [OF sample_people_p2 t personIds_mkTeam, of "''g''"] obtain D' where
    run: "orgReducer ''g'' initialOrgState (DELETE_PERSON ''p2'') = Inr D'"
    and gone: "people D' ''p2'' = None"
    and tm: "teams D' = (teams initialOrgState)(''product'' \<mapsto>
        (mkTeam ''product'' ''Product'' ''#16213e'' [''p2'', ''p3'', ''p4'']
           [Analytics, Experiment, SessionReplay])\<lparr>personIds := Some (filter (\<lambda>i. i \<noteq> ''p2'') [''p2'', ''p3'', ''p4''])\<rparr>)"
    and cleared: "\<forall>y P. y \<noteq> ''p2'' \<and> people initialOrgState y = Some P \<and> reportsTo P = Some ''p2'' \<longrightarrow>
        people D' y = Some (P\<lparr>reportsTo := None\<rparr>)"
    and kept: "\<forall>y P. y \<noteq> ''p2'' \<and> people initialOrgState y = Some P \<and> reportsTo P \<noteq> Some ''p2'' \<longrightarrow>
        people D' y = Some P"
    unfolding k by (elim exE conjE) (rule that, assumption+)
  have c3: "''p3'' \<noteq> ''p2'' \<and> people initialOrgState ''p3'' = Some (mkPerson ''p3'' ''Elena Rodriguez''
      ''Director of Product'' Director ''elena.r@cisco.com'' [PowerUser] (Some ''p2'') ''product'')
      \<and> reportsTo (mkPerson ''p3'' ''Elena Rodriguez''
      ''Director of Product'' Director ''elena.r@cisco.com'' [PowerUser] (Some ''p2'') ''product'') = Some ''p2''"
    using sample_people_p3 by (simp add: mkPerson_def)
  have "people D' ''p3'' = Some ((mkPerson ''p3'' ''Elena Rodriguez''
      ''Director of Product'' Director ''elena.r@cisco.com'' [PowerUser] (Some ''p2'') ''product'')\<lparr>reportsTo := None\<rparr>)"
    by (rule cleared [rule_format, OF c3])
  then have p3: "people D' ''p3'' = Some (mkPerson ''p3'' ''Elena Rodriguez'' ''Director of Product''
           Director ''elena.r@cisco.com'' [PowerUser] None ''product'')"
    by (simp add: mkPerson_def)
  have c4: "''p4'' \<noteq> ''p2'' \<and> people initialOrgState ''p4'' = Some (mkPerson ''p4'' ''James Park''
      ''Senior Product Manager'' Manager ''james.p@cisco.com'' [Champion] (Some ''p3'') ''product'')
      \<and> reportsTo (mkPerson ''p4'' ''James Park''
      ''Senior Product Manager'' Manager ''james.p@cisco.com'' [Champion] (Some ''p3'') ''product'') \<noteq> Some ''p2''"
    using sample_people_p4 by (simp add: mkPerson_def)
  have p4: "people D' ''p4'' = Some (mkPerson ''p4'' ''James Park''
      ''Senior Product Manager'' Manager ''james.p@cisco.com'' [Champion] (Some ''p3'') ''product'')"
    by (rule kept [rule_format, OF c4])
  have ids: "personIds (the (teams D' ''product'')) = Some [''p3'', ''p4'']"
    by (simp add: tm)
  show ?thesis
    using sample_people_p2 sample_teams_product gone ids p3 p4 unfolding run by simp
qed

subsection \<open>Moving a person there and back\<close>



subsection \<open>Membership consistency of the reachable documents\<close>

lemma membersOf_upd:
  "membersOf (ps(x \<mapsto> P)) k = (if teamId P = k then insert x (membersOf ps k) else membersOf ps k - {x})"
  by (auto simp: membersOf_def)

lemma membersOf_del: "membersOf (ps(x := None)) k = membersOf ps k - {x}"
  by (auto simp: membersOf_def)

lemma membersOf_cong:
  assumes "\<And>x. map_option teamId (ps' x) = map_option teamId (ps x)"
  shows "membersOf ps' k = membersOf ps k"
proof -
  have "\<And>x. (\<exists>P. ps' x = Some P \<and> teamId P = k) \<longleftrightarrow> (\<exists>P. ps x = Some P \<and> teamId P = k)"
  proof -
    fix x
    show "(\<exists>P. ps' x = Some P \<and> teamId P = k) \<longleftrightarrow> (\<exists>P. ps x = Some P \<and> teamId P = k)"
      using assms [of x] by (cases "ps' x"; cases "ps x") auto
  qed
  then show ?thesis by (simp add: membersOf_def)
qed

lemma removeMember_Inr:
  assumes "removeMember ts k x = Inr ts'"
  obtains T ids where "ts k = Some T" and "personIds T = Some ids"
    and "ts' = ts(k \<mapsto> T\<lparr>personIds := Some (filter (\<lambda>i. i \<noteq> x) ids)\<rparr>)"
  using assms by (auto simp: removeMember_def split: option.splits)

lemma appendMember_Inr:
  assumes "appendMember ts k x = Inr ts'"
  obtains T ids where "ts k = Some T" and "personIds T = Some ids"
    and "ts' = ts(k \<mapsto> T\<lparr>personIds := Some (ids @ [x])\<rparr>)"
  using assms by (auto simp: appendMember_def split: option.splits)

text \<open>A step that changes neither any person's teamId nor any team's id and list.\<close>

lemma doc_invariant_cong:
  assumes inv: "doc_invariant D"
    and ps: "\<And>x. map_option teamId (people D' x) = map_option teamId (people D x)"
    and ts: "\<And>k. map_option (\<lambda>T. (t_id T, personIds T)) (teams D' k)
                 = map_option (\<lambda>T. (t_id T, personIds T)) (teams D k)"
  shows "doc_invariant D'"
proof -
  have mem: "\<And>k. membersOf (people D') k = membersOf (people D) k"
    using ps by (rule membersOf_cong)
  have tk: "\<And>k T'. teams D' k = Some T' \<Longrightarrow> \<exists>T. teams D k = Some T \<and> t_id T = t_id T' \<and> personIds T = personIds T'"
  proof -
    fix k T' assume "teams D' k = Some T'"
    then show "\<exists>T. teams D k = Some T \<and> t_id T = t_id T' \<and> personIds T = personIds T'"
      using ts [of k] by (cases "teams D k") auto
  qed
  have dm: "\<And>k. teams D k \<noteq> None \<Longrightarrow> teams D' k \<noteq> None"
  proof -
    fix k assume "teams D k \<noteq> None"
    then show "teams D' k \<noteq> None" using ts [of k] by (cases "teams D' k") auto
  qed
  have pk: "\<And>x P'. people D' x = Some P' \<Longrightarrow> \<exists>P. people D x = Some P \<and> teamId P = teamId P'"
  proof -
    fix x P' assume "people D' x = Some P'"
    then show "\<exists>P. people D x = Some P \<and> teamId P = teamId P'"
      using ps [of x] by (cases "people D x") auto
  qed
  have a: "teams_keyed D'"
    using inv tk unfolding doc_invariant_def teams_keyed_def by metis
  have b: "membership_consistent D'"
    unfolding membership_consistent_def
  proof (intro allI impI)
    fix k T' assume "teams D' k = Some T'"
    then obtain T where T: "teams D k = Some T" "t_id T = t_id T'" "personIds T = personIds T'"
      using tk by blast
    from inv T(1) obtain ids where "personIds T = Some ids" "distinct ids"
        "set ids = membersOf (people D) (t_id T)"
      unfolding doc_invariant_def membership_consistent_def by blast
    then show "\<exists>ids. personIds T' = Some ids \<and> distinct ids \<and> set ids = membersOf (people D') (t_id T')"
      using T mem by auto
  qed
  have c: "team_refs_exist D'"
    unfolding team_refs_exist_def
  proof (intro allI impI)
    fix x P' assume "people D' x = Some P'"
    then obtain P where P: "people D x = Some P" "teamId P = teamId P'" using pk by blast
    from inv P(1) obtain k where "teamId P = Some k" "teams D k \<noteq> None"
      unfolding doc_invariant_def team_refs_exist_def by blast
    then show "\<exists>k. teamId P' = Some k \<and> teams D' k \<noteq> None"
      using P dm by auto
  qed
  show ?thesis using a b c by (simp add: doc_invariant_def)
qed

lemma doc_invariantI:
  assumes "\<And>k T. teams D k = Some T \<Longrightarrow> t_id T = Some k"
    and "\<And>k T. teams D k = Some T \<Longrightarrow>
           \<exists>ids. personIds T = Some ids \<and> distinct ids \<and> set ids = membersOf (people D) (Some k)"
    and "\<And>x P. people D x = Some P \<Longrightarrow> \<exists>k. teamId P = Some k \<and> teams D k \<noteq> None"
  shows "doc_invariant D"
proof -
  have a: "teams_keyed D"
    using assms(1) by (simp add: teams_keyed_def)
  have b: "membership_consistent D"
    unfolding membership_consistent_def
  proof (intro allI impI)
    fix k T assume kT: "teams D k = Some T"
    from assms(1) [OF kT] assms(2) [OF kT]
    show "\<exists>ids. personIds T = Some ids \<and> distinct ids \<and> set ids = membersOf (people D) (t_id T)"
      by simp
  qed
  have c: "team_refs_exist D"
    using assms(3) by (simp add: team_refs_exist_def)
  show ?thesis using a b c by (simp add: doc_invariant_def)
qed

lemma inv_keyed: "doc_invariant D \<Longrightarrow> teams D k = Some T \<Longrightarrow> t_id T = Some k"
  unfolding doc_invariant_def teams_keyed_def by blast

lemma inv_list:
  "doc_invariant D \<Longrightarrow> teams D k = Some T \<Longrightarrow>
     \<exists>ids. personIds T = Some ids \<and> distinct ids \<and> set ids = membersOf (people D) (Some k)"
proof -
  assume inv: "doc_invariant D" and kT: "teams D k = Some T"
  from inv kT have "t_id T = Some k"
    unfolding doc_invariant_def teams_keyed_def by blast
  moreover from inv kT have "\<exists>ids. personIds T = Some ids \<and> distinct ids \<and> set ids = membersOf (people D) (t_id T)"
    unfolding doc_invariant_def membership_consistent_def by blast
  ultimately show ?thesis by simp
qed

lemma inv_ref:
  "doc_invariant D \<Longrightarrow> people D x = Some P \<Longrightarrow> \<exists>k. teamId P = Some k \<and> teams D k \<noteq> None"
  unfolding doc_invariant_def team_refs_exist_def by blast

lemma personIds_update_fields [simp]:
  "t_id (T\<lparr>personIds := v\<rparr>) = t_id T"
  by simp

lemma inv_transfer:
  assumes inv: "doc_invariant D"
    and P: "people D x = Some P" "teamId P = Some A"
    and ne: "A \<noteq> B"
    and rm: "removeMember (teams D) A x = Inr t1"
    and ap: "appendMember t1 B x = Inr t2"
    and P': "teamId P' = Some B"
  shows "doc_invariant (D\<lparr>teams := t2, people := (people D)(x \<mapsto> P')\<rparr>)"
proof -
  let ?ps = "(people D)(x \<mapsto> P')"
  from rm obtain TA idsA where TA: "teams D A = Some TA" "personIds TA = Some idsA"
    and t1: "t1 = (teams D)(A \<mapsto> TA\<lparr>personIds := Some (filter (\<lambda>i. i \<noteq> x) idsA)\<rparr>)"
    by (rule removeMember_Inr)
  from ap obtain TB0 idsB where TB0: "t1 B = Some TB0" "personIds TB0 = Some idsB"
    and t2: "t2 = t1(B \<mapsto> TB0\<lparr>personIds := Some (idsB @ [x])\<rparr>)"
    by (rule appendMember_Inr)
  have TB: "teams D B = Some TB0" using TB0(1) ne by (simp add: t1)
  from inv_list [OF inv TA(1)] TA(2) have A: "distinct idsA" "set idsA = membersOf (people D) (Some A)"
    by auto
  from inv_list [OF inv TB] TB0(2) have B: "distinct idsB" "set idsB = membersOf (people D) (Some B)"
    by auto
  have xB: "x \<notin> set idsB"
    using B(2) P ne by (simp add: membersOf_def)
  have mB: "membersOf ?ps (Some B) = insert x (membersOf (people D) (Some B))"
    using P' by (simp add: membersOf_upd)
  have mO: "\<And>k. k \<noteq> B \<Longrightarrow> membersOf ?ps (Some k) = membersOf (people D) (Some k) - {x}"
    using P' by (simp add: membersOf_upd)
  have t2B: "t2 B = Some (TB0\<lparr>personIds := Some (idsB @ [x])\<rparr>)" by (simp add: t2)
  have t2A: "t2 A = Some (TA\<lparr>personIds := Some (filter (\<lambda>i. i \<noteq> x) idsA)\<rparr>)"
    using ne by (simp add: t1 t2)
  have t2O: "\<And>k. k \<noteq> A \<Longrightarrow> k \<noteq> B \<Longrightarrow> t2 k = teams D k" by (simp add: t1 t2)
  have dom2: "\<And>k. teams D k \<noteq> None \<Longrightarrow> t2 k \<noteq> None" by (simp add: t1 t2)
  have keyed: "\<And>k T. t2 k = Some T \<Longrightarrow> t_id T = Some k"
  proof -
    fix k T assume kT: "t2 k = Some T"
    consider "k = B" | "k = A" "k \<noteq> B" | "k \<noteq> A" "k \<noteq> B" by blast
    then show "t_id T = Some k"
    proof cases
      case 1
      then have "T = TB0\<lparr>personIds := Some (idsB @ [x])\<rparr>" using kT t2B by simp
      then show ?thesis using inv_keyed [OF inv TB] 1 by simp
    next
      case 2
      then have "T = TA\<lparr>personIds := Some (filter (\<lambda>i. i \<noteq> x) idsA)\<rparr>" using kT t2A by simp
      then show ?thesis using inv_keyed [OF inv TA(1)] 2 by simp
    next
      case 3
      then have "teams D k = Some T" using kT t2O by simp
      then show ?thesis by (rule inv_keyed [OF inv])
    qed
  qed
  have lists: "\<And>k T. t2 k = Some T \<Longrightarrow>
      \<exists>ids. personIds T = Some ids \<and> distinct ids \<and> set ids = membersOf ?ps (Some k)"
  proof -
    fix k T assume kT: "t2 k = Some T"
    consider "k = B" | "k = A" "k \<noteq> B" | "k \<noteq> A" "k \<noteq> B" by blast
    then show "\<exists>ids. personIds T = Some ids \<and> distinct ids \<and> set ids = membersOf ?ps (Some k)"
    proof cases
      case 1
      then have "personIds T = Some (idsB @ [x])" using kT t2B by auto
      moreover have "distinct (idsB @ [x])" using B(1) xB by simp
      moreover have "set (idsB @ [x]) = membersOf ?ps (Some k)" using 1 mB B(2) by simp
      ultimately show ?thesis by blast
    next
      case 2
      then have "personIds T = Some (filter (\<lambda>i. i \<noteq> x) idsA)" using kT t2A by auto
      moreover have "distinct (filter (\<lambda>i. i \<noteq> x) idsA)" using A(1) by simp
      moreover have "set (filter (\<lambda>i. i \<noteq> x) idsA) = membersOf ?ps (Some k)"
        using 2 mO [of k] A(2) by auto
      ultimately show ?thesis by blast
    next
      case 3
      then have T: "teams D k = Some T" using kT t2O by simp
      from inv_list [OF inv T] obtain ids where ids: "personIds T = Some ids" "distinct ids"
        "set ids = membersOf (people D) (Some k)" by blast
      have "x \<notin> membersOf (people D) (Some k)"
        using P 3 by (simp add: membersOf_def)
      then have "set ids = membersOf ?ps (Some k)" using ids(3) mO [of k] 3 by simp
      then show ?thesis using ids by blast
    qed
  qed
  have refs: "\<And>y Q. ?ps y = Some Q \<Longrightarrow> \<exists>k. teamId Q = Some k \<and> t2 k \<noteq> None"
  proof -
    fix y Q assume yQ: "?ps y = Some Q"
    show "\<exists>k. teamId Q = Some k \<and> t2 k \<noteq> None"
    proof (cases "y = x")
      case True
      then have "Q = P'" using yQ by simp
      then show ?thesis using P' t2B by simp
    next
      case False
      then have "people D y = Some Q" using yQ by simp
      from inv_ref [OF inv this] obtain k where "teamId Q = Some k" "teams D k \<noteq> None" by blast
      then show ?thesis using dom2 by blast
    qed
  qed
  let ?D' = "D\<lparr>teams := t2, people := ?ps\<rparr>"
  have tD: "teams ?D' = t2" and pD: "people ?D' = ?ps" by simp_all
  show "doc_invariant ?D'"
  proof (rule doc_invariantI)
    fix k T assume "teams ?D' k = Some T"
    then have kT: "t2 k = Some T" by (simp only: tD)
    show "t_id T = Some k" using kT by (rule keyed)
    show "\<exists>ids. personIds T = Some ids \<and> distinct ids \<and> set ids = membersOf (people ?D') (Some k)"
      unfolding pD using kT by (rule lists)
  next
    fix y Q assume "people ?D' y = Some Q"
    then have "?ps y = Some Q" by (simp only: pD)
    then show "\<exists>k. teamId Q = Some k \<and> teams ?D' k \<noteq> None"
      unfolding tD by (rule refs)
  qed
qed

lemma inv_add:
  assumes inv: "doc_invariant D"
    and fresh: "people D g = None"
    and ap: "appendMember (teams D) B g = Inr t1"
    and P': "teamId P' = Some B"
  shows "doc_invariant (D\<lparr>teams := t1, people := (people D)(g \<mapsto> P')\<rparr>)"
proof -
  let ?ps = "(people D)(g \<mapsto> P')"
  from ap obtain TB idsB where TB: "teams D B = Some TB" "personIds TB = Some idsB"
    and t1: "t1 = (teams D)(B \<mapsto> TB\<lparr>personIds := Some (idsB @ [g])\<rparr>)"
    by (rule appendMember_Inr)
  from inv_list [OF inv TB(1)] TB(2) have B: "distinct idsB" "set idsB = membersOf (people D) (Some B)"
    by auto
  have gN: "\<And>k. g \<notin> membersOf (people D) k"
    using fresh by (simp add: membersOf_def)
  have mB: "membersOf ?ps (Some B) = insert g (membersOf (people D) (Some B))"
    using P' by (simp add: membersOf_upd)
  have mO: "\<And>k. k \<noteq> B \<Longrightarrow> membersOf ?ps (Some k) = membersOf (people D) (Some k)"
    using P' gN by (simp add: membersOf_upd)
  have t1B: "t1 B = Some (TB\<lparr>personIds := Some (idsB @ [g])\<rparr>)" by (simp add: t1)
  have t1O: "\<And>k. k \<noteq> B \<Longrightarrow> t1 k = teams D k" by (simp add: t1)
  have dom1: "\<And>k. teams D k \<noteq> None \<Longrightarrow> t1 k \<noteq> None" by (simp add: t1)
  let ?D' = "D\<lparr>teams := t1, people := ?ps\<rparr>"
  have tD: "teams ?D' = t1" and pD: "people ?D' = ?ps" by simp_all
  show "doc_invariant ?D'"
  proof (rule doc_invariantI)
    fix k T assume "teams ?D' k = Some T"
    then have kT: "t1 k = Some T" by (simp only: tD)
    show "t_id T = Some k"
    proof (cases "k = B")
      case True
      then have "T = TB\<lparr>personIds := Some (idsB @ [g])\<rparr>" using kT t1B by simp
      then show ?thesis using inv_keyed [OF inv TB(1)] True by simp
    next
      case False
      then have "teams D k = Some T" using kT t1O by simp
      then show ?thesis by (rule inv_keyed [OF inv])
    qed
    show "\<exists>ids. personIds T = Some ids \<and> distinct ids \<and> set ids = membersOf (people ?D') (Some k)"
      unfolding pD
    proof (cases "k = B")
      case True
      then have "personIds T = Some (idsB @ [g])" using kT t1B by auto
      moreover have "distinct (idsB @ [g])" using B gN [of "Some B"] by simp
      moreover have "set (idsB @ [g]) = membersOf ?ps (Some k)" using True mB B(2) by simp
      ultimately show "\<exists>ids. personIds T = Some ids \<and> distinct ids \<and> set ids = membersOf ?ps (Some k)"
        by blast
    next
      case False
      then have T: "teams D k = Some T" using kT t1O by simp
      from inv_list [OF inv T] mO [OF False]
      show "\<exists>ids. personIds T = Some ids \<and> distinct ids \<and> set ids = membersOf ?ps (Some k)"
        by simp
    qed
  next
    fix y Q assume "people ?D' y = Some Q"
    then have yQ: "?ps y = Some Q" by (simp only: pD)
    show "\<exists>k. teamId Q = Some k \<and> teams ?D' k \<noteq> None"
      unfolding tD
    proof (cases "y = g")
      case True
      then have "Q = P'" using yQ by simp
      then show "\<exists>k. teamId Q = Some k \<and> t1 k \<noteq> None" using P' t1B by simp
    next
      case False
      then have "people D y = Some Q" using yQ by simp
      from inv_ref [OF inv this] obtain k where "teamId Q = Some k" "teams D k \<noteq> None" by blast
      then show "\<exists>k. teamId Q = Some k \<and> t1 k \<noteq> None" using dom1 by blast
    qed
  qed
qed

lemma teamId_clearManager [simp]: "teamId (clearManager x P) = teamId P"
  by (simp add: clearManager_def)

lemma inv_delete:
  assumes inv: "doc_invariant D"
    and P: "people D x = Some P"
    and rm: "removeMember (teams D) (propertyKey (teamId P)) x = Inr t1"
  shows "doc_invariant (D\<lparr>teams := t1,
           people := (\<lambda>i. map_option (clearManager x) (((people D)(x := None)) i))\<rparr>)"
proof -
  let ?ps = "\<lambda>i. map_option (clearManager x) (((people D)(x := None)) i)"
  from inv_ref [OF inv P] obtain A where A: "teamId P = Some A" "teams D A \<noteq> None" by blast
  have key: "propertyKey (teamId P) = A" using A(1) by (simp add: propertyKey_def)
  from rm obtain TA idsA where TA: "teams D A = Some TA" "personIds TA = Some idsA"
    and t1: "t1 = (teams D)(A \<mapsto> TA\<lparr>personIds := Some (filter (\<lambda>i. i \<noteq> x) idsA)\<rparr>)"
    unfolding key by (rule removeMember_Inr)
  from inv_list [OF inv TA(1)] TA(2) have lA: "distinct idsA" "set idsA = membersOf (people D) (Some A)"
    by auto
  have "\<And>k. membersOf ?ps k = membersOf ((people D)(x := None)) k"
    by (rule membersOf_cong) (simp add: option.map_comp comp_def)
  then have mem: "\<And>k. membersOf ?ps k = membersOf (people D) k - {x}"
    by (simp add: membersOf_del)
  have t1A: "t1 A = Some (TA\<lparr>personIds := Some (filter (\<lambda>i. i \<noteq> x) idsA)\<rparr>)" by (simp add: t1)
  have t1O: "\<And>k. k \<noteq> A \<Longrightarrow> t1 k = teams D k" by (simp add: t1)
  have dom1: "\<And>k. teams D k \<noteq> None \<Longrightarrow> t1 k \<noteq> None" by (simp add: t1)
  let ?D' = "D\<lparr>teams := t1, people := ?ps\<rparr>"
  have tD: "teams ?D' = t1" and pD: "people ?D' = ?ps" by simp_all
  show "doc_invariant ?D'"
  proof (rule doc_invariantI)
    fix k T assume "teams ?D' k = Some T"
    then have kT: "t1 k = Some T" by (simp only: tD)
    show "t_id T = Some k"
    proof (cases "k = A")
      case True
      then have "T = TA\<lparr>personIds := Some (filter (\<lambda>i. i \<noteq> x) idsA)\<rparr>" using kT t1A by simp
      then show ?thesis using inv_keyed [OF inv TA(1)] True by simp
    next
      case False
      then have "teams D k = Some T" using kT t1O by simp
      then show ?thesis by (rule inv_keyed [OF inv])
    qed
    show "\<exists>ids. personIds T = Some ids \<and> distinct ids \<and> set ids = membersOf (people ?D') (Some k)"
      unfolding pD
    proof (cases "k = A")
      case True
      then have "personIds T = Some (filter (\<lambda>i. i \<noteq> x) idsA)" using kT t1A by auto
      moreover have "distinct (filter (\<lambda>i. i \<noteq> x) idsA)" using lA(1) by simp
      moreover have "set (filter (\<lambda>i. i \<noteq> x) idsA) = membersOf ?ps (Some k)"
        using True mem [of "Some A"] lA(2) by auto
      ultimately show "\<exists>ids. personIds T = Some ids \<and> distinct ids \<and> set ids = membersOf ?ps (Some k)"
        by blast
    next
      case False
      then have T: "teams D k = Some T" using kT t1O by simp
      from inv_list [OF inv T] obtain ids where ids: "personIds T = Some ids" "distinct ids"
        "set ids = membersOf (people D) (Some k)" by blast
      have "x \<notin> membersOf (people D) (Some k)"
        using P A(1) False by (simp add: membersOf_def)
      then have "set ids = membersOf ?ps (Some k)" using ids(3) mem [of "Some k"] by simp
      then show "\<exists>ids. personIds T = Some ids \<and> distinct ids \<and> set ids = membersOf ?ps (Some k)"
        using ids by blast
    qed
  next
    fix y Q assume "people ?D' y = Some Q"
    then have yQ: "?ps y = Some Q" by (simp only: pD)
    then obtain Q0 where Q0: "people D y = Some Q0" "Q = clearManager x Q0"
      by (cases "y = x") auto
    from inv_ref [OF inv Q0(1)] obtain k where "teamId Q0 = Some k" "teams D k \<noteq> None" by blast
    then show "\<exists>k. teamId Q = Some k \<and> teams ?D' k \<noteq> None"
      unfolding tD using Q0(2) dom1 by auto
  qed
qed

lemma inv_delete_team:
  assumes inv: "doc_invariant D"
    and T: "teams D k = Some T" "personIds T = Some []"
  shows "doc_invariant (D\<lparr>teams := (teams D)(k := None)\<rparr>)"
proof -
  let ?D' = "D\<lparr>teams := (teams D)(k := None)\<rparr>"
  from inv_list [OF inv T(1)] T(2) have empty: "membersOf (people D) (Some k) = {}" by auto
  show "doc_invariant ?D'"
  proof (rule doc_invariantI)
    fix j U assume "teams ?D' j = Some U"
    then have jU: "teams D j = Some U" by (simp split: if_splits)
    show "t_id U = Some j" using jU by (rule inv_keyed [OF inv])
    show "\<exists>ids. personIds U = Some ids \<and> distinct ids \<and> set ids = membersOf (people ?D') (Some j)"
      using inv_list [OF inv jU] by simp
  next
    fix y Q assume "people ?D' y = Some Q"
    then have yQ: "people D y = Some Q" by simp
    from inv_ref [OF inv yQ] obtain j where j: "teamId Q = Some j" "teams D j \<noteq> None" by blast
    have "j \<noteq> k" using empty yQ j(1) by (auto simp: membersOf_def)
    then show "\<exists>j. teamId Q = Some j \<and> teams ?D' j \<noteq> None" using j by simp
  qed
qed

lemma inv_add_team:
  assumes inv: "doc_invariant D"
    and free: "teams D k = None"
    and T: "t_id T = Some k" "personIds T = Some []"
  shows "doc_invariant (D\<lparr>teams := (teams D)(k \<mapsto> T)\<rparr>)"
proof -
  let ?D' = "D\<lparr>teams := (teams D)(k \<mapsto> T)\<rparr>"
  have empty: "membersOf (people D) (Some k) = {}"
  proof -
    have "\<And>y. y \<notin> membersOf (people D) (Some k)"
    proof
      fix y assume "y \<in> membersOf (people D) (Some k)"
      then obtain Q where Q: "people D y = Some Q" "teamId Q = Some k" by (auto simp: membersOf_def)
      from inv_ref [OF inv Q(1)] Q(2) free show False by simp
    qed
    then show ?thesis by blast
  qed
  show "doc_invariant ?D'"
  proof (rule doc_invariantI)
    fix j U assume jU: "teams ?D' j = Some U"
    show "t_id U = Some j"
    proof (cases "j = k")
      case True then show ?thesis using jU T(1) by simp
    next
      case False
      then have "teams D j = Some U" using jU by simp
      then show ?thesis by (rule inv_keyed [OF inv])
    qed
    show "\<exists>ids. personIds U = Some ids \<and> distinct ids \<and> set ids = membersOf (people ?D') (Some j)"
    proof (cases "j = k")
      case True then show ?thesis using jU T(2) empty by simp
    next
      case False
      then have "teams D j = Some U" using jU by simp
      from inv_list [OF inv this] show ?thesis by simp
    qed
  next
    fix y Q assume "people ?D' y = Some Q"
    then have yQ: "people D y = Some Q" by simp
    from inv_ref [OF inv yQ] show "\<exists>j. teamId Q = Some j \<and> teams ?D' j \<noteq> None" by auto
  qed
qed

lemma membersOf_map_of:
  assumes "distinct (map fst ps)"
  shows "membersOf (map_of ps) k = set (map fst (filter (\<lambda>(x, P). teamId P = k) ps))"
proof -
  have "\<And>x. (\<exists>P. map_of ps x = Some P \<and> teamId P = k) \<longleftrightarrow> (\<exists>P. (x, P) \<in> set ps \<and> teamId P = k)"
    using assms by simp
  then show ?thesis by (auto simp: membersOf_def image_iff)
qed

lemma doc_invariant_map_of:
  assumes dt: "distinct (map fst ts)" and dp: "distinct (map fst ps)"
    and tsok: "list_all (\<lambda>(k, T). t_id T = Some k \<and>
        (case personIds T of None \<Rightarrow> False
         | Some ids \<Rightarrow> distinct ids \<and> set ids = set (map fst (filter (\<lambda>(x, P). teamId P = Some k) ps)))) ts"
    and psok: "list_all (\<lambda>(x, P). case teamId P of None \<Rightarrow> False | Some k \<Rightarrow> k \<in> set (map fst ts)) ps"
  shows "doc_invariant \<lparr>teams = map_of ts, people = map_of ps, orgProducts = op\<rparr>"
proof (rule doc_invariantI)
  fix k T assume "teams \<lparr>teams = map_of ts, people = map_of ps, orgProducts = op\<rparr> k = Some T"
  then have "(k, T) \<in> set ts" using dt by simp
  then have ok: "t_id T = Some k \<and> (case personIds T of None \<Rightarrow> False
         | Some ids \<Rightarrow> distinct ids \<and> set ids = set (map fst (filter (\<lambda>(x, P). teamId P = Some k) ps)))"
    using tsok by (auto simp: list_all_iff)
  then show "t_id T = Some k" by simp
  from ok show "\<exists>ids. personIds T = Some ids \<and> distinct ids \<and>
      set ids = membersOf (people \<lparr>teams = map_of ts, people = map_of ps, orgProducts = op\<rparr>) (Some k)"
    by (cases "personIds T") (simp_all add: membersOf_map_of [OF dp])
next
  fix x P assume "people \<lparr>teams = map_of ts, people = map_of ps, orgProducts = op\<rparr> x = Some P"
  then have "(x, P) \<in> set ps" using dp by simp
  then have "case teamId P of None \<Rightarrow> False | Some k \<Rightarrow> k \<in> set (map fst ts)"
    using psok by (auto simp: list_all_iff)
  then obtain k where k: "teamId P = Some k" "k \<in> fst ` set ts" by (cases "teamId P") auto
  then have "map_of ts k \<noteq> None" by (simp add: map_of_eq_None_iff)
  then show "\<exists>k. teamId P = Some k \<and> teams \<lparr>teams = map_of ts, people = map_of ps, orgProducts = op\<rparr> k \<noteq> None"
    using k(1) by simp
qed

lemma doc_invariant_empty: "doc_invariant createEmptyOrgState"
proof -
  have "doc_invariant \<lparr>teams = map_of emptyTeamsList, people = map_of [], orgProducts = Some []\<rparr>"
    by (rule doc_invariant_map_of) (simp_all add: emptyTeamsList_def mkTeam_def)
  then show ?thesis by (simp add: createEmptyOrgState_def)
qed

lemma doc_invariant_sample: "doc_invariant initialOrgState"
  unfolding initialOrgState_def
  by (rule doc_invariant_map_of)
     (simp_all add: sampleTeamsList_def samplePeopleList_def mkTeam_def mkPerson_def)

lemma teamId_mergeUpdates: "teamId (mergeUpdates P u) = overrideWith (teamId P) (u_teamId u)"
  by (simp add: mergeUpdates_def)

lemma step_move:
  assumes inv: "doc_invariant D"
    and pre: "sufficient_precondition D gen (MOVE_PERSON x A B)"
    and run: "orgReducer gen D (MOVE_PERSON x A B) = Inr D'"
  shows "doc_invariant D'"
proof -
  from pre obtain P where P: "people D x = Some P" "teamId P = Some A" and ne: "A \<noteq> B"
    by (auto simp: sufficient_precondition_def split: option.splits)
  from run ne obtain t1 t2 where rm: "removeMember (teams D) A x = Inr t1"
    and ap: "appendMember t1 B x = Inr t2"
    and D': "D' = D\<lparr>teams := t2, people := (people D)(x \<mapsto> P\<lparr>teamId := Some B\<rparr>)\<rparr>"
    by (auto simp: P spreadPerson_def split: sum.splits)
  show ?thesis
    unfolding D' by (rule inv_transfer [OF inv P ne rm ap]) simp
qed

lemma step_add_person:
  assumes inv: "doc_invariant D"
    and pre: "sufficient_precondition D gen (ADD_PERSON person)"
    and run: "orgReducer gen D (ADD_PERSON person) = Inr D'"
  shows "doc_invariant D'"
proof -
  from pre obtain k where k: "teamId person = Some k" and fresh: "people D gen = None"
    by (auto simp: sufficient_precondition_def split: option.splits)
  from run obtain t1 where ap: "appendMember (teams D) k gen = Inr t1"
    and D': "D' = D\<lparr>teams := t1, people := (people D)(gen \<mapsto> person\<lparr>p_id := Some gen\<rparr>)\<rparr>"
    by (auto simp: k propertyKey_def Let_def split: sum.splits)
  show ?thesis
    unfolding D' by (rule inv_add [OF inv fresh ap]) (simp add: k)
qed

lemma step_update:
  assumes inv: "doc_invariant D"
    and pre: "sufficient_precondition D gen (UPDATE_PERSON x u)"
    and run: "orgReducer gen D (UPDATE_PERSON x u) = Inr D'"
  shows "doc_invariant D'"
proof -
  from pre obtain P where P: "people D x = Some P"
    by (auto simp: sufficient_precondition_def)
  from inv_ref [OF inv P] obtain A where A: "teamId P = Some A" by blast
  have same: "teamId (mergeUpdates P u) = teamId P \<Longrightarrow>
      doc_invariant (D\<lparr>people := (people D)(x \<mapsto> mergeUpdates P u)\<rparr>)"
    by (rule doc_invariant_cong [OF inv]) (simp_all add: P)
  show ?thesis
  proof (cases "u_teamId u")
    case None
    then have "D' = D\<lparr>people := (people D)(x \<mapsto> mergeUpdates P u)\<rparr>"
      using run by (simp add: P readProperty_def)
    moreover have "teamId (mergeUpdates P u) = teamId P"
      using None by (simp add: teamId_mergeUpdates overrideWith_def)
    ultimately show ?thesis using same by simp
  next
    case (Some v)
    with pre obtain B where B: "u_teamId u = Some (Some B)" "B \<noteq> []"
      by (auto simp: sufficient_precondition_def split: option.splits)
    have tm: "teamId (mergeUpdates P u) = Some B"
      using B by (simp add: teamId_mergeUpdates overrideWith_def)
    show ?thesis
    proof (cases "B = A")
      case True
      then have "D' = D\<lparr>people := (people D)(x \<mapsto> mergeUpdates P u)\<rparr>"
        using run by (simp add: P A B readProperty_def)
      then show ?thesis using same tm True A by simp
    next
      case False
      with run obtain t1 t2 where rm: "removeMember (teams D) A x = Inr t1"
        and ap: "appendMember t1 B x = Inr t2"
        and D': "D' = D\<lparr>teams := t2, people := (people D)(x \<mapsto> mergeUpdates P u)\<rparr>"
        by (auto simp: P A B readProperty_def propertyKey_def split: sum.splits)
      have ne: "A \<noteq> B" using False by simp
      show ?thesis
        unfolding D' by (rule inv_transfer [OF inv P A ne rm ap tm])
    qed
  qed
qed

lemma step_delete_person:
  assumes inv: "doc_invariant D"
    and pre: "sufficient_precondition D gen (DELETE_PERSON x)"
    and run: "orgReducer gen D (DELETE_PERSON x) = Inr D'"
  shows "doc_invariant D'"
proof -
  from pre obtain P where P: "people D x = Some P"
    by (auto simp: sufficient_precondition_def)
  with run obtain t1 where rm: "removeMember (teams D) (propertyKey (teamId P)) x = Inr t1"
    and D': "D' = D\<lparr>teams := t1,
           people := (\<lambda>i. map_option (clearManager x) (((people D)(x := None)) i))\<rparr>"
    by (auto simp: Let_def split: sum.splits)
  show ?thesis unfolding D' by (rule inv_delete [OF inv P rm])
qed

lemma step_set_reports_to:
  assumes inv: "doc_invariant D"
    and pre: "sufficient_precondition D gen (SET_REPORTS_TO x m)"
    and run: "orgReducer gen D (SET_REPORTS_TO x m) = Inr D'"
  shows "doc_invariant D'"
proof -
  from pre obtain P where P: "people D x = Some P"
    by (auto simp: sufficient_precondition_def)
  have D': "D' = D\<lparr>people := (people D)(x \<mapsto> P\<lparr>reportsTo := m\<rparr>)\<rparr>"
    using run by (simp add: P spreadPerson_def)
  show ?thesis
    unfolding D' by (rule doc_invariant_cong [OF inv]) (simp_all add: P)
qed

lemma step_toggle_tag:
  assumes inv: "doc_invariant D"
    and pre: "sufficient_precondition D gen (TOGGLE_TAG x tag)"
    and run: "orgReducer gen D (TOGGLE_TAG x tag) = Inr D'"
  shows "doc_invariant D'"
proof -
  from pre obtain P where P: "people D x = Some P"
    by (auto simp: sufficient_precondition_def)
  with run obtain ts where D': "D' = D\<lparr>people := (people D)(x \<mapsto> P\<lparr>tags := Some ts\<rparr>)\<rparr>"
    by (auto split: option.splits)
  show ?thesis
    unfolding D' by (rule doc_invariant_cong [OF inv]) (simp_all add: P)
qed

lemma step_rename_team:
  assumes inv: "doc_invariant D"
    and pre: "sufficient_precondition D gen (RENAME_TEAM k n)"
    and run: "orgReducer gen D (RENAME_TEAM k n) = Inr D'"
  shows "doc_invariant D'"
proof -
  from pre obtain T where T: "teams D k = Some T"
    by (auto simp: sufficient_precondition_def)
  have D': "D' = D\<lparr>teams := (teams D)(k \<mapsto> T\<lparr>t_name := Some n\<rparr>)\<rparr>"
    using run by (simp add: T spreadTeam_def)
  show ?thesis
    unfolding D' by (rule doc_invariant_cong [OF inv]) (simp_all add: T)
qed

lemma step_add_team:
  assumes inv: "doc_invariant D"
    and pre: "sufficient_precondition D gen (ADD_TEAM team)"
    and run: "orgReducer gen D (ADD_TEAM team) = Inr D'"
  shows "doc_invariant D'"
proof -
  from pre obtain k where k: "t_id team = Some k" and free: "teams D k = None"
    and emp: "personIds team = Some []"
    by (auto simp: sufficient_precondition_def propertyKey_def)
  have D': "D' = D\<lparr>teams := (teams D)(k \<mapsto> team)\<rparr>"
    using run by (simp add: k propertyKey_def)
  show ?thesis unfolding D' by (rule inv_add_team [OF inv free k emp])
qed

lemma step_delete_team:
  assumes inv: "doc_invariant D"
    and pre: "sufficient_precondition D gen (DELETE_TEAM k)"
    and run: "orgReducer gen D (DELETE_TEAM k) = Inr D'"
  shows "doc_invariant D'"
proof -
  from pre obtain T where T: "teams D k = Some T" "personIds T = Some []"
    by (auto simp: sufficient_precondition_def split: option.splits)
  have D': "D' = D\<lparr>teams := (teams D)(k := None)\<rparr>"
    using run by (simp add: T)
  show ?thesis unfolding D' by (rule inv_delete_team [OF inv T])
qed

lemma step_toggle_team_product:
  assumes inv: "doc_invariant D"
    and pre: "sufficient_precondition D gen (TOGGLE_TEAM_PRODUCT k p)"
    and run: "orgReducer gen D (TOGGLE_TEAM_PRODUCT k p) = Inr D'"
  shows "doc_invariant D'"
proof -
  from pre obtain T where T: "teams D k = Some T"
    by (auto simp: sufficient_precondition_def)
  with run consider "D' = D" | ps where "D' = D\<lparr>teams := (teams D)(k \<mapsto> T\<lparr>products := Some ps\<rparr>)\<rparr>"
    by (auto split: if_splits)
  then show ?thesis
  proof cases
    case 1 then show ?thesis using inv by simp
  next
    case 2
    show ?thesis unfolding 2 by (rule doc_invariant_cong [OF inv]) (simp_all add: T)
  qed
qed

lemma revokeProduct_fields [simp]:
  "t_id (revokeProduct p T) = t_id T" "personIds (revokeProduct p T) = personIds T"
  by (simp_all add: revokeProduct_def split: option.splits)

lemma step_toggle_org_product:
  assumes inv: "doc_invariant D"
    and run: "orgReducer gen D (TOGGLE_ORG_PRODUCT p) = Inr D'"
  shows "doc_invariant D'"
proof -
  from run consider ps where "D' = D\<lparr>orgProducts := Some ps\<rparr>"
    | ps where "D' = D\<lparr>teams := (\<lambda>k. map_option (revokeProduct p) (teams D k)), orgProducts := Some ps\<rparr>"
    by (auto simp: Let_def split: if_splits)
  then show ?thesis
  proof cases
    case 1
    show ?thesis unfolding 1 by (rule doc_invariant_cong [OF inv]) simp_all
  next
    case 2
    show ?thesis unfolding 2
      by (rule doc_invariant_cong [OF inv]) (simp_all add: option.map_comp comp_def)
  qed
qed

lemma step_preserves:
  assumes inv: "doc_invariant D"
    and pre: "sufficient_precondition D gen a"
    and run: "orgReducer gen D a = Inr D'"
  shows "doc_invariant D'"
proof (cases a)
  case (MOVE_PERSON x A B)
  then show ?thesis using step_move inv pre run by blast
next
  case (ADD_PERSON person)
  then show ?thesis using step_add_person inv pre run by blast
next
  case (UPDATE_PERSON x u)
  then show ?thesis using step_update inv pre run by blast
next
  case (DELETE_PERSON x)
  then show ?thesis using step_delete_person inv pre run by blast
next
  case (SET_REPORTS_TO x m)
  then show ?thesis using step_set_reports_to inv pre run by blast
next
  case (TOGGLE_TAG x tag)
  then show ?thesis using step_toggle_tag inv pre run by blast
next
  case (RENAME_TEAM k n)
  then show ?thesis using step_rename_team inv pre run by blast
next
  case (ADD_TEAM team)
  then show ?thesis using step_add_team inv pre run by blast
next
  case (DELETE_TEAM k)
  then show ?thesis using step_delete_team inv pre run by blast
next
  case (TOGGLE_TEAM_PRODUCT k p)
  then show ?thesis using step_toggle_team_product inv pre run by blast
next
  case (TOGGLE_ORG_PRODUCT p)
  then show ?thesis using step_toggle_org_product inv run by blast
next
  case (LOAD_ORG s)
  then show ?thesis using pre run by (simp add: sufficient_precondition_def)
next
  case CLEAR_ORG
  then show ?thesis using run doc_invariant_empty by simp
qed

lemma reachable_invariant: "reachable sufficient_precondition D \<Longrightarrow> doc_invariant D"
proof (induction rule: reachable.induct)
  case reach_empty
  show ?case by (rule doc_invariant_empty)
next
  case reach_sample
  show ?case by (rule doc_invariant_sample)
next
  case (reach_step D gen a D')
  then show ?case using step_preserves by blast
qed

text \<open>
  What the reducer does keep. Every document reachable from the empty or the sample
  document by commands that satisfy their stated preconditions and the conditions of
  \<open>extra_precondition\<close> is membership consistent.
\<close>

lemma membership_kept:
  assumes "reachable sufficient_precondition D"
  shows "membership_consistent D"
  using reachable_invariant [OF assms] by (simp add: doc_invariant_def)

lemma sample_move:
  "orgReducer ''g'' initialOrgState (MOVE_PERSON ''p1'' ''executive'' ''sales'') =
     Inr (initialOrgState\<lparr>teams := (teams initialOrgState)
            (''executive'' \<mapsto> mkTeam ''executive'' ''Executive'' ''#1a1a2e'' [] [],
             ''sales'' \<mapsto> mkTeam ''sales'' ''Sales'' ''#2d132c'' [''p11'', ''p12'', ''p1''] []),
          people := (people initialOrgState)(''p1'' \<mapsto> mkPerson ''p1'' ''Sarah Chen''
             ''Chief Technology Officer'' Executive ''sarah.chen@cisco.com'' [DecisionMaker] None ''sales'')\<rparr>)"
  by (simp add: removeMember_def appendMember_def spreadPerson_def sample_teams_sales
      sample_teams_executive sample_people_p1 mkTeam_def mkPerson_def)

lemma sample_move_then_stale_move:
  "\<exists>D2. orgReducer ''g'' (projr (orgReducer ''g'' initialOrgState (MOVE_PERSON ''p1'' ''executive'' ''sales'')))
          (MOVE_PERSON ''p1'' ''executive'' ''product'') = Inr D2
     \<and> teams D2 ''sales'' = Some (mkTeam ''sales'' ''Sales'' ''#2d132c'' [''p11'', ''p12'', ''p1''] [])
     \<and> teams D2 ''product'' = Some (mkTeam ''product'' ''Product'' ''#16213e''
          [''p2'', ''p3'', ''p4'', ''p1''] [Analytics, Experiment, SessionReplay])
     \<and> people D2 ''p1'' = Some (mkPerson ''p1'' ''Sarah Chen'' ''Chief Technology Officer''
          Executive ''sarah.chen@cisco.com'' [DecisionMaker] None ''product'')"
  unfolding sample_move sum.sel
  by (simp add: removeMember_def appendMember_def spreadPerson_def sample_teams_product
      mkTeam_def mkPerson_def)

subsection \<open>A move with a stale source team\<close>

text \<open>
  C1. Membership consistency fails on a reachable document. The detail panel keeps the
  person it was opened with and passes that person's \<open>teamId\<close> as \<open>fromTeam\<close>; after
  one team change the value is stale. From the sample document, moving \<open>p1\<close> from
  \<open>executive\<close> to \<open>sales\<close> and then, with the stale source \<open>executive\<close>, to \<open>product\<close>
  satisfies the stated precondition of MOVE_PERSON both times (the person exists, the
  two teams differ). The second move filters the list of \<open>executive\<close>, not that of
  \<open>sales\<close>: afterwards \<open>sales\<close> still lists \<open>p1\<close>, whose \<open>teamId\<close> is \<open>product\<close>.
\<close>

theorem membership_broken_by_stale_move:
  "stated_precondition initialOrgState ''g'' (MOVE_PERSON ''p1'' ''executive'' ''sales'')
   \<and> stated_precondition
        (projr (orgReducer ''g'' initialOrgState (MOVE_PERSON ''p1'' ''executive'' ''sales'')))
        ''g'' (MOVE_PERSON ''p1'' ''executive'' ''product'')
   \<and> reachable stated_precondition
        (projr (orgReducer ''g''
           (projr (orgReducer ''g'' initialOrgState (MOVE_PERSON ''p1'' ''executive'' ''sales'')))
           (MOVE_PERSON ''p1'' ''executive'' ''product'')))
   \<and> personIds (the (teams
        (projr (orgReducer ''g''
           (projr (orgReducer ''g'' initialOrgState (MOVE_PERSON ''p1'' ''executive'' ''sales'')))
           (MOVE_PERSON ''p1'' ''executive'' ''product''))) ''sales''))
       = Some [''p11'', ''p12'', ''p1'']
   \<and> teamId (the (people
        (projr (orgReducer ''g''
           (projr (orgReducer ''g'' initialOrgState (MOVE_PERSON ''p1'' ''executive'' ''sales'')))
           (MOVE_PERSON ''p1'' ''executive'' ''product''))) ''p1''))
       = Some ''product''
   \<and> \<not> membership_consistent
        (projr (orgReducer ''g''
           (projr (orgReducer ''g'' initialOrgState (MOVE_PERSON ''p1'' ''executive'' ''sales'')))
           (MOVE_PERSON ''p1'' ''executive'' ''product'')))"
proof -
  define D1 where "D1 = projr (orgReducer ''g'' initialOrgState (MOVE_PERSON ''p1'' ''executive'' ''sales''))"
  define D2 where "D2 = projr (orgReducer ''g'' D1 (MOVE_PERSON ''p1'' ''executive'' ''product''))"
  have run1: "orgReducer ''g'' initialOrgState (MOVE_PERSON ''p1'' ''executive'' ''sales'') = Inr D1"
    unfolding D1_def by (simp only: sample_move sum.sel)
  from sample_move_then_stale_move obtain E where
    runE: "orgReducer ''g'' D1 (MOVE_PERSON ''p1'' ''executive'' ''product'') = Inr E"
    and sE: "teams E ''sales'' = Some (mkTeam ''sales'' ''Sales'' ''#2d132c'' [''p11'', ''p12'', ''p1''] [])"
    and pE: "people E ''p1'' = Some (mkPerson ''p1'' ''Sarah Chen'' ''Chief Technology Officer''
          Executive ''sarah.chen@cisco.com'' [DecisionMaker] None ''product'')"
    unfolding D1_def by blast
  have E: "E = D2" unfolding D2_def by (simp only: runE sum.sel)
  have run2: "orgReducer ''g'' D1 (MOVE_PERSON ''p1'' ''executive'' ''product'') = Inr D2"
    using runE E by simp
  have sales: "teams D2 ''sales'' = Some (mkTeam ''sales'' ''Sales'' ''#2d132c'' [''p11'', ''p12'', ''p1''] [])"
    using sE E by simp
  have p1: "people D2 ''p1'' = Some (mkPerson ''p1'' ''Sarah Chen'' ''Chief Technology Officer''
          Executive ''sarah.chen@cisco.com'' [DecisionMaker] None ''product'')"
    using pE E by simp
  have pre1: "stated_precondition initialOrgState ''g'' (MOVE_PERSON ''p1'' ''executive'' ''sales'')"
    by (simp add: sample_people_p1)
  have "people D1 ''p1'' \<noteq> None"
    unfolding D1_def sample_move by simp
  then have pre2: "stated_precondition D1 ''g'' (MOVE_PERSON ''p1'' ''executive'' ''product'')"
    by simp
  have r1: "reachable stated_precondition D1"
    by (rule reach_step [where pre = stated_precondition, OF reach_sample pre1 run1])
  have r2: "reachable stated_precondition D2"
    by (rule reach_step [where pre = stated_precondition, OF r1 pre2 run2])
  have ids: "personIds (the (teams D2 ''sales'')) = Some [''p11'', ''p12'', ''p1'']"
    by (simp add: sales mkTeam_def)
  have tid: "teamId (the (people D2 ''p1'')) = Some ''product''"
    by (simp add: p1 mkPerson_def)
  have bad: "\<not> membership_consistent D2"
  proof
    assume "membership_consistent D2"
    with sales have "set [''p11'', ''p12'', ''p1''] = membersOf (people D2) (Some ''sales'')"
      unfolding membership_consistent_def by (fastforce simp: mkTeam_def)
    then have "''p1'' \<in> membersOf (people D2) (Some ''sales'')" by auto
    then show False by (simp add: membersOf_def p1 mkPerson_def)
  qed
  show ?thesis
    using pre1 pre2 r2 ids tid bad unfolding D2_def D1_def by blast
qed

theorem membership_broken_by_stale_move_witness:
  "personIds (the (teams
        (projr (orgReducer ''g''
           (projr (orgReducer ''g'' initialOrgState (MOVE_PERSON ''p1'' ''executive'' ''sales'')))
           (MOVE_PERSON ''p1'' ''executive'' ''product''))) ''sales''))
       = Some [''p11'', ''p12'', ''p1'']
   \<and> teamId (the (people
        (projr (orgReducer ''g''
           (projr (orgReducer ''g'' initialOrgState (MOVE_PERSON ''p1'' ''executive'' ''sales'')))
           (MOVE_PERSON ''p1'' ''executive'' ''product''))) ''p1''))
       = Some ''product''"
  by (rule conjI
      [OF membership_broken_by_stale_move [THEN conjunct2, THEN conjunct2, THEN conjunct2, THEN conjunct1]
          membership_broken_by_stale_move [THEN conjunct2, THEN conjunct2, THEN conjunct2, THEN conjunct2,
            THEN conjunct1]])

subsection \<open>Commands whose precondition fails\<close>

text \<open>
  Five cases of the reducer test for the missing person or team and return the document
  itself (unless the id is the name of a property that objects inherit).
\<close>

lemma reducer_guarded_commands:
  "people D x = None \<Longrightarrow> x \<notin> set objectPrototypeKeys \<Longrightarrow> orgReducer g D (UPDATE_PERSON x u) = Inr D"
  "people D x = None \<Longrightarrow> x \<notin> set objectPrototypeKeys \<Longrightarrow> orgReducer g D (DELETE_PERSON x) = Inr D"
  "people D x = None \<Longrightarrow> x \<notin> set objectPrototypeKeys \<Longrightarrow> orgReducer g D (TOGGLE_TAG x tag) = Inr D"
  "teams D k = None \<Longrightarrow> k \<notin> set objectPrototypeKeys \<Longrightarrow> orgReducer g D (DELETE_TEAM k) = Inr D"
  "teams D k = None \<Longrightarrow> k \<notin> set objectPrototypeKeys \<Longrightarrow> orgReducer g D (TOGGLE_TEAM_PRODUCT k p) = Inr D"
  by (simp_all add: readPerson_def readTeam_def)

text \<open>
  With such an id the test passes although the document has no such person or team:
  on the empty document DELETE_TEAM and TOGGLE_TAG throw, and UPDATE_PERSON stores a
  person.
\<close>

lemma reducer_inherited_keys:
  "orgReducer g createEmptyOrgState (DELETE_TEAM ''constructor'') = Inl TypeError"
  "orgReducer g createEmptyOrgState (TOGGLE_TAG ''toString'' Champion) = Inl TypeError"
  "readProperty (u_teamId u) = None \<Longrightarrow>
     orgReducer g createEmptyOrgState (UPDATE_PERSON ''constructor'' u)
       = Inr (createEmptyOrgState\<lparr>people := [''constructor'' \<mapsto> mergeUpdates emptyPerson u]\<rparr>)"
proof -
  have t: "teams createEmptyOrgState ''constructor'' = None"
    by (simp add: createEmptyOrgState_def emptyTeamsList_def)
  have pe: "people createEmptyOrgState = Map.empty"
    by (simp add: createEmptyOrgState_def)
  show "orgReducer g createEmptyOrgState (DELETE_TEAM ''constructor'') = Inl TypeError"
    by (simp add: readTeam_def t objectPrototypeKeys_def emptyTeam_def)
  show "orgReducer g createEmptyOrgState (TOGGLE_TAG ''toString'' Champion) = Inl TypeError"
    by (simp add: readPerson_def pe objectPrototypeKeys_def emptyPerson_def)
  show "readProperty (u_teamId u) = None \<Longrightarrow>
     orgReducer g createEmptyOrgState (UPDATE_PERSON ''constructor'' u)
       = Inr (createEmptyOrgState\<lparr>people := [''constructor'' \<mapsto> mergeUpdates emptyPerson u]\<rparr>)"
    by (simp add: readPerson_def pe objectPrototypeKeys_def)
qed

text \<open>
  C2. The other four cases that name a person or a team, ADD_PERSON, MOVE_PERSON,
  SET_REPORTS_TO and RENAME_TEAM, have no such test. On the empty document, ADD_PERSON
  to a team that does not exist and MOVE_PERSON from one throw a TypeError;
  SET_REPORTS_TO on a person that does not exist stores a person object that has only
  \<open>reportsTo\<close>, and RENAME_TEAM on a team that does not exist stores a team object that
  has only a name: neither returns the document unchanged.
\<close>

theorem reducer_unguarded_commands:
  "orgReducer ''g'' createEmptyOrgState
      (ADD_PERSON (mkPerson [] ''Ann'' ''Engineer'' IC ''ann@example.com'' [] None ''nowhere''))
     = Inl TypeError
   \<and> orgReducer ''g'' createEmptyOrgState (MOVE_PERSON ''ghost'' ''nowhere'' ''sales'') = Inl TypeError
   \<and> orgReducer ''g'' createEmptyOrgState (SET_REPORTS_TO ''ghost'' (Some ''boss''))
     = Inr (createEmptyOrgState\<lparr>people := [''ghost'' \<mapsto> emptyPerson\<lparr>reportsTo := Some ''boss''\<rparr>]\<rparr>)
   \<and> orgReducer ''g'' createEmptyOrgState (SET_REPORTS_TO ''ghost'' (Some ''boss''))
     \<noteq> Inr createEmptyOrgState
   \<and> orgReducer ''g'' createEmptyOrgState (RENAME_TEAM ''nowhere'' ''New'')
     \<noteq> Inr createEmptyOrgState"
proof -
  have nowhere: "teams createEmptyOrgState ''nowhere'' = None"
    by (simp add: createEmptyOrgState_def emptyTeamsList_def)
  have ghost: "people createEmptyOrgState ''ghost'' = None"
    by (simp add: createEmptyOrgState_def)
  have a: "orgReducer ''g'' createEmptyOrgState
      (ADD_PERSON (mkPerson [] ''Ann'' ''Engineer'' IC ''ann@example.com'' [] None ''nowhere''))
     = Inl TypeError"
    by (simp add: appendMember_def propertyKey_def teamId_mkPerson nowhere)
  have b: "orgReducer ''g'' createEmptyOrgState (MOVE_PERSON ''ghost'' ''nowhere'' ''sales'') = Inl TypeError"
    by (simp add: removeMember_def nowhere)
  have c: "orgReducer ''g'' createEmptyOrgState (SET_REPORTS_TO ''ghost'' (Some ''boss''))
     = Inr (createEmptyOrgState\<lparr>people := [''ghost'' \<mapsto> emptyPerson\<lparr>reportsTo := Some ''boss''\<rparr>]\<rparr>)"
    by (simp add: spreadPerson_def ghost) (simp add: createEmptyOrgState_def)
  have d: "orgReducer ''g'' createEmptyOrgState (SET_REPORTS_TO ''ghost'' (Some ''boss''))
     \<noteq> Inr createEmptyOrgState"
  proof
    assume "orgReducer ''g'' createEmptyOrgState (SET_REPORTS_TO ''ghost'' (Some ''boss'')) = Inr createEmptyOrgState"
    then have "people (createEmptyOrgState\<lparr>people := [''ghost'' \<mapsto> emptyPerson\<lparr>reportsTo := Some ''boss''\<rparr>]\<rparr>)
        ''ghost'' = people createEmptyOrgState ''ghost''"
      by (simp only: c sum.inject)
    then show False by (simp add: ghost)
  qed
  have e: "orgReducer ''g'' createEmptyOrgState (RENAME_TEAM ''nowhere'' ''New'') \<noteq> Inr createEmptyOrgState"
  proof
    assume "orgReducer ''g'' createEmptyOrgState (RENAME_TEAM ''nowhere'' ''New'') = Inr createEmptyOrgState"
    then have "teams (createEmptyOrgState\<lparr>teams := (teams createEmptyOrgState)
        (''nowhere'' \<mapsto> (spreadTeam (teams createEmptyOrgState ''nowhere''))\<lparr>t_name := Some ''New''\<rparr>)\<rparr>) ''nowhere''
        = teams createEmptyOrgState ''nowhere''"
      by simp
    then show False by (simp add: nowhere)
  qed
  show ?thesis using a b c d e by blast
qed

section \<open>Properties of the provider and of the codecs\<close>

subsection \<open>Deleting an organisation\<close>












subsection \<open>Malformed payloads\<close>

lemma validOrg_lacking: "lacks_truthy v \<Longrightarrow> validOrg v = None"
  by (cases v) (auto simp: validOrg_def)

lemma validOrg_truthy:
  "r_teams r \<noteq> Falsy \<Longrightarrow> r_people r \<noteq> Falsy \<Longrightarrow> validOrg (JSObject r) = Some r"
  by (simp add: validOrg_def)

lemma state_addImported: "state (addImported pf c i n s p) = s"
  by (simp add: addImported_def dispatchLoad_def Let_def)

lemma savedOrgs_addImported:
  "savedOrgs (addImported pf c i n s p)
     = savedOrgs p @ [\<lparr>so_id = i, so_name = n, createdAt = isoCreated c, updatedAt = isoUpdated c\<rparr>]"
  by (simp add: addImported_def dispatchLoad_def Let_def)

lemma currentOrgId_addImported: "currentOrgId (addImported pf c i n s p) = i"
  by (simp add: addImported_def dispatchLoad_def Let_def)

text \<open>
  What the tests do reject. Let \<open>v\<close> be a decoded payload in which \<open>teams\<close> or \<open>people\<close>
  is missing or falsy (or \<open>v\<close> is \<^verbatim>\<open>null\<close>, or no object). Then decodeOrgFromUrl returns
  \<^verbatim>\<open>null\<close> on a link that decodes to \<open>v\<close>; importOrg on a text that parses to \<open>v\<close>
  throws (the error "Invalid org data", or a TypeError when \<open>v\<close> is \<^verbatim>\<open>null\<close>) and
  importSharedOrg on \<open>v\<close> returns early (or throws the TypeError); in each case the
  provider state, hence the catalog and the current document, is unchanged.
\<close>

lemma falsy_import_rejected:
  assumes "lacks_truthy v"
  shows "(atob pf enc = Inr bytes \<and> decodeURIComponent pf (escape pf bytes) = Inr json
            \<and> JSON_parse pf json = Inr v \<longrightarrow> decodeOrgFromUrl pf enc = None)
         \<and> (JSON_parse pf jsonData = Inr v \<longrightarrow>
              importOrg pf c jsonData name p =
                (Some (if v = JSNull then TypeError else InvalidOrgData), p))
         \<and> importSharedOrg pf c v name p = (if v = JSNull then Some TypeError else None, p)"
proof (intro conjI impI)
  assume "atob pf enc = Inr bytes \<and> decodeURIComponent pf (escape pf bytes) = Inr json
            \<and> JSON_parse pf json = Inr v"
  then show "decodeOrgFromUrl pf enc = None"
    using validOrg_lacking [OF assms] by (simp add: decodeOrgFromUrl_def)
next
  assume "JSON_parse pf jsonData = Inr v"
  then show "importOrg pf c jsonData name p = (Some (if v = JSNull then TypeError else InvalidOrgData), p)"
    using validOrg_lacking [OF assms] by (cases v) (simp_all add: importOrg_def)
next
  show "importSharedOrg pf c v name p = (if v = JSNull then Some TypeError else None, p)"
    using validOrg_lacking [OF assms] by (cases v) (simp_all add: importSharedOrg_def)
qed

lemma falsy_import_rejected_example:
  "lacks_truthy noTeams
   \<and> decodeOrgFromUrl (examplePlatform noTeams) ''doc'' = None
   \<and> importOrg (examplePlatform noTeams) exampleClock ''doc'' ''Imported'' (exampleProvider [defaultOrg])
       = (Some InvalidOrgData, exampleProvider [defaultOrg])
   \<and> importSharedOrg (examplePlatform noTeams) exampleClock noTeams ''Imported'' (exampleProvider [defaultOrg])
       = (None, exampleProvider [defaultOrg])"
proof -
  have l: "lacks_truthy noTeams" by (simp add: noTeams_def)
  have a: "atob (examplePlatform noTeams) ''doc'' = Inr ''doc''" by (simp add: examplePlatform_def)
  have d: "decodeURIComponent (examplePlatform noTeams) (escape (examplePlatform noTeams) ''doc'') = Inr ''doc''"
    by (simp add: examplePlatform_def)
  have j: "JSON_parse (examplePlatform noTeams) ''doc'' = Inr noTeams" by (simp add: examplePlatform_def)
  have n: "noTeams \<noteq> JSNull" by (simp add: noTeams_def)
  show ?thesis
    using l a d j n
      falsy_import_rejected [OF l, where pf = "examplePlatform noTeams" and enc = "''doc''"
        and bytes = "''doc''" and json = "''doc''" and jsonData = "''doc''" and c = exampleClock
        and name = "''Imported''" and p = "exampleProvider [defaultOrg]"]
    by simp
qed

text \<open>
  C4. A payload whose \<open>teams\<close> and \<open>people\<close> are present and truthy but are no
  collections, such as \<^verbatim>\<open>{"teams":1,"people":"x"}\<close>, lacks both collections, and the
  tests let it pass: decodeOrgFromUrl returns the object instead of \<^verbatim>\<open>null\<close>; importOrg
  does not throw, appends a record to the catalog, and makes the object the current
  document of a new current organisation; importSharedOrg does the same.
\<close>

theorem malformed_import_accepted:
  "lacks_collections (JSObject notCollections)
   \<and> decodeOrgFromUrl (examplePlatform (JSObject notCollections)) ''doc'' = Some notCollections
   \<and> fst (importOrg (examplePlatform (JSObject notCollections)) exampleClock ''doc'' ''Imported''
        (exampleProvider [defaultOrg])) = None
   \<and> savedOrgs (snd (importOrg (examplePlatform (JSObject notCollections)) exampleClock ''doc''
        ''Imported'' (exampleProvider [defaultOrg])))
       = [defaultOrg,
          \<lparr>so_id = ''org_1700000000000'', so_name = ''Imported'',
            createdAt = ''2023-11-14T22:13:20.000Z'', updatedAt = ''2023-11-14T22:13:20.000Z''\<rparr>]
   \<and> currentOrgId (snd (importOrg (examplePlatform (JSObject notCollections)) exampleClock ''doc''
        ''Imported'' (exampleProvider [defaultOrg]))) = ''org_1700000000000''
   \<and> state (snd (importOrg (examplePlatform (JSObject notCollections)) exampleClock ''doc''
        ''Imported'' (exampleProvider [defaultOrg]))) = notCollections
   \<and> fst (importSharedOrg (examplePlatform (JSObject notCollections)) exampleClock
        (JSObject notCollections) ''Team'' (exampleProvider [defaultOrg])) = None
   \<and> savedOrgs (snd (importSharedOrg (examplePlatform (JSObject notCollections)) exampleClock
        (JSObject notCollections) ''Team'' (exampleProvider [defaultOrg])))
       = [defaultOrg,
          \<lparr>so_id = ''shared_1700000000000'', so_name = ''Team (Copy)'',
            createdAt = ''2023-11-14T22:13:20.000Z'', updatedAt = ''2023-11-14T22:13:20.000Z''\<rparr>]
   \<and> state (snd (importSharedOrg (examplePlatform (JSObject notCollections)) exampleClock
        (JSObject notCollections) ''Team'' (exampleProvider [defaultOrg]))) = notCollections"
proof -
  let ?pf = "examplePlatform (JSObject notCollections)"
  have l: "lacks_collections (JSObject notCollections)"
    by (simp add: notCollections_def)
  have v: "validOrg (JSObject notCollections) = Some notCollections"
    by (rule validOrg_truthy) (simp_all add: notCollections_def)
  have j: "JSON_parse ?pf ''doc'' = Inr (JSObject notCollections)"
    by (simp add: examplePlatform_def)
  have dec: "decodeOrgFromUrl ?pf ''doc'' = Some notCollections"
    by (simp add: decodeOrgFromUrl_def v) (simp add: examplePlatform_def v)
  have imp: "importOrg ?pf exampleClock ''doc'' ''Imported'' (exampleProvider [defaultOrg])
      = (None, addImported ?pf exampleClock (''org_'' @ dateNow exampleClock) ''Imported''
           notCollections (exampleProvider [defaultOrg]))"
    by (simp add: importOrg_def j v)
  have shr: "importSharedOrg ?pf exampleClock (JSObject notCollections) ''Team'' (exampleProvider [defaultOrg])
      = (None, addImported ?pf exampleClock (''shared_'' @ dateNow exampleClock) (''Team'' @ '' (Copy)'')
           notCollections (exampleProvider [defaultOrg]))"
    by (simp add: importSharedOrg_def v)
  have orgs: "savedOrgs (exampleProvider [defaultOrg]) = [defaultOrg]"
    by (simp add: exampleProvider_def)
  show ?thesis
    unfolding imp shr
    using l dec
    by (simp add: state_addImported savedOrgs_addImported currentOrgId_addImported orgs
        exampleClock_def del: lacks_collections.simps)
qed

theorem malformed_import_accepted_witness:
  "decodeOrgFromUrl (examplePlatform (JSObject notCollections)) ''doc'' = Some notCollections
   \<and> fst (importOrg (examplePlatform (JSObject notCollections)) exampleClock ''doc'' ''Imported''
        (exampleProvider [defaultOrg])) = None"
  by (rule conjI
      [OF malformed_import_accepted [THEN conjunct2, THEN conjunct1]
          malformed_import_accepted [THEN conjunct2, THEN conjunct2, THEN conjunct1]])

subsection \<open>Round trips of the codecs\<close>

lemma validOrg_toRaw: "validOrg (JSObject (toRaw s)) = Some (toRaw s)"
  by (simp add: validOrg_def toRaw_def)

text \<open>
  C3. Assume that on the document \<open>D\<close> the platform's \<^verbatim>\<open>JSON.parse\<close> inverts
  \<^verbatim>\<open>JSON.stringify\<close> (plain and pretty-printed) and that on its JSON text the string
  codecs invert each other (\<open>json_inverts\<close>, \<open>link_codec_inverts\<close>). Then encodeOrgToUrl
  returns a string that decodeOrgFromUrl decodes to \<open>D\<close>, and importOrg applied to what
  exportOrg returns for \<open>D\<close> does not throw and loads \<open>D\<close> as the document. (\<open>toRaw D\<close>
  is \<open>D\<close> as the run-time value that these functions pass around.)
\<close>

theorem codec_round_trip:
  assumes json: "json_inverts pf D"
    and link: "link_codec_inverts pf (JSON_stringify pf (toRaw D))"
    and cur: "state p = toRaw D"
  shows "(case encodeOrgToUrl pf (toRaw D) of
            Inl e \<Rightarrow> False
          | Inr enc \<Rightarrow> decodeOrgFromUrl pf enc = Some (toRaw D))
         \<and> fst (importOrg pf c (exportOrg pf p) name q) = None
         \<and> state (snd (importOrg pf c (exportOrg pf p) name q)) = toRaw D"
proof -
  from link obtain u b where u: "encodeURIComponent pf (JSON_stringify pf (toRaw D)) = Inr u"
    and b: "btoa pf (unescape pf u) = Inr b"
    and ab: "atob pf b = Inr (unescape pf u)"
    and du: "decodeURIComponent pf (escape pf (unescape pf u)) = Inr (JSON_stringify pf (toRaw D))"
    by (auto simp: link_codec_inverts_def split: sum.splits)
  from json have pj: "JSON_parse pf (JSON_stringify pf (toRaw D)) = Inr (JSObject (toRaw D))"
    and pp: "JSON_parse pf (JSON_stringify_pretty pf (toRaw D)) = Inr (JSObject (toRaw D))"
    by (simp_all add: json_inverts_def)
  have enc: "encodeOrgToUrl pf (toRaw D) = Inr b"
    by (simp add: encodeOrgToUrl_def u b)
  have dec: "decodeOrgFromUrl pf b = Some (toRaw D)"
    by (simp add: decodeOrgFromUrl_def ab du pj validOrg_toRaw)
  have imp: "importOrg pf c (exportOrg pf p) name q
      = (None, addImported pf c (''org_'' @ dateNow c) name (toRaw D) q)"
    by (simp add: importOrg_def exportOrg_def cur pp validOrg_toRaw)
  show ?thesis
    by (simp add: enc dec imp state_addImported)
qed

theorem codec_round_trip_witness:
  "json_inverts (examplePlatform (JSObject (toRaw initialOrgState))) initialOrgState
   \<and> link_codec_inverts (examplePlatform (JSObject (toRaw initialOrgState)))
        (JSON_stringify (examplePlatform (JSObject (toRaw initialOrgState))) (toRaw initialOrgState))
   \<and> state (exampleProvider [defaultOrg]) = toRaw initialOrgState
   \<and> encodeOrgToUrl (examplePlatform (JSObject (toRaw initialOrgState))) (toRaw initialOrgState)
       = Inr ''doc''
   \<and> decodeOrgFromUrl (examplePlatform (JSObject (toRaw initialOrgState))) ''doc''
       = Some (toRaw initialOrgState)
   \<and> state (snd (importOrg (examplePlatform (JSObject (toRaw initialOrgState))) exampleClock
        (exportOrg (examplePlatform (JSObject (toRaw initialOrgState))) (exampleProvider [defaultOrg]))
        ''Imported'' (exampleProvider []))) = toRaw initialOrgState"
proof -
  let ?pf = "examplePlatform (JSObject (toRaw initialOrgState))"
  have j: "json_inverts ?pf initialOrgState"
    by (simp add: json_inverts_def examplePlatform_def)
  have l: "link_codec_inverts ?pf (JSON_stringify ?pf (toRaw initialOrgState))"
    by (simp add: link_codec_inverts_def examplePlatform_def)
  have s: "state (exampleProvider [defaultOrg]) = toRaw initialOrgState"
    by (simp add: exampleProvider_def)
  have e: "encodeOrgToUrl ?pf (toRaw initialOrgState) = Inr ''doc''"
    by (simp add: encodeOrgToUrl_def examplePlatform_def)
  from codec_round_trip [OF j l s, of exampleClock "''Imported''" "exampleProvider []"]
  show ?thesis using j l s e by simp
qed

end
